theory Spec2Isabelle
  imports Main "HOL-Library.Word"
begin

section \<open>Data model\<close>

text \<open>
  The match lifecycle and report engine of the football API, embedded from
  \<^verbatim>\<open>internal/service\<close> (match service, report service), \<^verbatim>\<open>internal/repository\<close>,
  \<^verbatim>\<open>internal/model\<close>, \<^verbatim>\<open>internal/dto\<close> and the match handler.

  A \<^verbatim>\<open>uuid.UUID\<close> is a 16-byte array that the code only compares; it is a 128-bit
  word here and \<^verbatim>\<open>uuid.Nil\<close> is \<open>0\<close>. Go's \<^verbatim>\<open>int\<close> scores, minutes and counts are
  \<open>int\<close>: they are only incremented once per element of a slice and compared, so
  no 64-bit wrap-around can occur.

  Of \<^verbatim>\<open>model.Base\<close> the primary key and the soft-delete mark \<^verbatim>\<open>DeletedAt\<close> are kept
  (the mark as a flag); the timestamps are not read by any modelled function. Field
  names carry the table's initial because two records cannot share a field name.
\<close>

type_synonym uuid = "128 word"

record Team =
  t_ID :: uuid
  t_Name :: string
  t_DeletedAt :: bool

record Player =
  p_ID :: uuid
  p_TeamID :: uuid
  p_Name :: string
  p_DeletedAt :: bool

record Match =
  m_ID :: uuid
  m_HomeTeamID :: uuid
  m_AwayTeamID :: uuid
  m_MatchDate :: string
  m_MatchTime :: string
  m_HomeScore :: int
  m_AwayScore :: int
  m_Status :: string
  m_DeletedAt :: bool

text \<open>A goal row; the row's own primary key is not modelled (no function reads it).\<close>

record Goal =
  g_MatchID :: uuid
  g_PlayerID :: uuid
  g_TeamID :: uuid
  g_Minute :: int
  g_DeletedAt :: bool

definition ValidMatchStatuses :: "string list" where
  "ValidMatchStatuses = [''scheduled'', ''completed'']"

text \<open>The database: one list of rows per table, soft-deleted rows included.\<close>

record DB =
  teams :: "Team list"
  players :: "Player list"
  matches :: "Match list"
  goals :: "Goal list"

subsection \<open>Requests, responses and errors\<close>

record GoalInput =
  gi_PlayerID :: string
  gi_TeamID :: string
  gi_Minute :: int

record MatchResultRequest =
  Goals :: "GoalInput list"

record CreateMatchRequest =
  cr_HomeTeamID :: string
  cr_AwayTeamID :: string
  cr_MatchDate :: string
  cr_MatchTime :: string

record UpdateMatchRequest =
  up_HomeTeamID :: string
  up_AwayTeamID :: string
  up_MatchDate :: string
  up_MatchTime :: string

text \<open>
  A goal of a match loaded with details: the row with its preloaded player and
  team (absent when the referenced row is missing or soft-deleted).
\<close>

record GoalDetail =
  gd_Goal :: Goal
  gd_Player :: "Player option"
  gd_Team :: "Team option"

record MatchDetail =
  md_Match :: Match
  md_HomeTeam :: "Team option"
  md_AwayTeam :: "Team option"
  md_Goals :: "GoalDetail list"

text \<open>
  \<^verbatim>\<open>dto.MatchResponse\<close> without the rendering of identifiers and timestamps as
  text and without the nested team objects.
\<close>

record MatchResponse =
  mr_ID :: uuid
  mr_HomeTeamID :: uuid
  mr_AwayTeamID :: uuid
  mr_MatchDate :: string
  mr_MatchTime :: string
  mr_HomeScore :: int
  mr_AwayScore :: int
  mr_Status :: string
  mr_Goals :: "Goal list"

text \<open>
  The report DTOs; \<^verbatim>\<open>dto.MatchReportResponse\<close> without the nested team objects.
\<close>

record MatchReportGoal =
  rg_PlayerName :: string
  rg_TeamName :: string
  rg_Minute :: int

record TopScorerResponse =
  ts_PlayerName :: string
  ts_TeamName :: string
  ts_GoalsInMatch :: int

record MatchReportResponse =
  rp_MatchID :: uuid
  rp_MatchDate :: string
  rp_MatchTime :: string
  rp_HomeScore :: int
  rp_AwayScore :: int
  rp_MatchResult :: string
  rp_Goals :: "MatchReportGoal list"
  rp_TopScorer :: "TopScorerResponse option"
  rp_HomeTeamTotalWins :: int
  rp_AwayTeamTotalWins :: int

text \<open>\<^verbatim>\<open>errs.AppError\<close>: the HTTP status code and the message.\<close>

record AppError =
  Code :: nat
  Message :: string

definition ErrBadRequest :: "string \<Rightarrow> AppError" where
  "ErrBadRequest message = \<lparr>Code = 400, Message = message\<rparr>"

definition ErrNotFound :: "string \<Rightarrow> AppError" where
  "ErrNotFound message = \<lparr>Code = 404, Message = message\<rparr>"

definition ErrInternal :: "string \<Rightarrow> AppError" where
  "ErrInternal message = \<lparr>Code = 500, Message = message\<rparr>"

text \<open>Decimal rendering of a goal number, as \<^verbatim>\<open>%d\<close> of \<^verbatim>\<open>fmt.Sprintf\<close> does.\<close>

definition digit :: "nat \<Rightarrow> char" where
  "digit d = (if d = 0 then CHR ''0'' else if d = 1 then CHR ''1'' else if d = 2 then CHR ''2''
              else if d = 3 then CHR ''3'' else if d = 4 then CHR ''4'' else if d = 5 then CHR ''5''
              else if d = 6 then CHR ''6'' else if d = 7 then CHR ''7'' else if d = 8 then CHR ''8''
              else CHR ''9'')"

function itoa :: "nat \<Rightarrow> string" where
  "itoa n = (if n < 10 then [digit n] else itoa (n div 10) @ [digit (n mod 10)])"
  by pat_completeness auto
termination
  by (relation "measure id") auto

declare itoa.simps [simp del]

definition goalMsg :: "nat \<Rightarrow> string \<Rightarrow> string" where
  "goalMsg i rest = ''Goal #'' @ itoa (i + 1) @ '': '' @ rest"

subsection \<open>The environment of a call\<close>

text \<open>
  What a call takes from outside the repository: \<^verbatim>\<open>uuid.Parse\<close>, the identifier
  that \<^verbatim>\<open>uuid.NewV7\<close> would produce (or its failure), the database calls that
  fail with a storage error during this call (a repository function fails every
  time or never within one call of the service), the order in which \<^verbatim>\<open>range\<close>
  visits the entries of a Go map, and, of the request binding, the \<^verbatim>\<open>uuid\<close> format
  check and the text of its error.
\<close>

datatype dbcall =
    TeamFindByID
  | PlayerFindByID
  | MatchFindByID
  | MatchFindByIDWithDetails
  | MatchCreate
  | MatchUpdate
  | MatchDelete
  | MatchCountWins
  | GoalCreateBatch
  | GoalDeleteByMatchID

record playerGoalCount =
  pgc_PlayerName :: string
  pgc_TeamName :: string
  pgc_Count :: int

record env =
  Parse :: "string \<Rightarrow> uuid option"
  NewV7 :: "uuid option"
  dbFails :: "dbcall \<Rightarrow> bool"
  rangeOrder :: "(uuid \<times> playerGoalCount) list \<Rightarrow> (uuid \<times> playerGoalCount) list"
  isUUID :: "string \<Rightarrow> bool"
  bindErrorText :: "GoalInput list option \<Rightarrow> string"

datatype dberr = ErrRecordNotFound | ErrStorage

section \<open>Repositories\<close>

text \<open>
  Each repository function is the query it builds, run on the row lists. A query
  on a model with \<^verbatim>\<open>DeletedAt\<close> sees live rows only, and \<^verbatim>\<open>Delete\<close> marks rows
  instead of removing them. \<^verbatim>\<open>First\<close> returns \<^verbatim>\<open>ErrRecordNotFound\<close> on no row.
\<close>

definition teamRepo_FindByID :: "env \<Rightarrow> DB \<Rightarrow> uuid \<Rightarrow> dberr + Team" where
  "teamRepo_FindByID e db i =
     (if dbFails e TeamFindByID then Inl ErrStorage
      else case find (\<lambda>t. t_ID t = i \<and> \<not> t_DeletedAt t) (teams db) of
             None \<Rightarrow> Inl ErrRecordNotFound
           | Some t \<Rightarrow> Inr t)"

definition playerRepo_FindByID :: "env \<Rightarrow> DB \<Rightarrow> uuid \<Rightarrow> dberr + Player" where
  "playerRepo_FindByID e db i =
     (if dbFails e PlayerFindByID then Inl ErrStorage
      else case find (\<lambda>p. p_ID p = i \<and> \<not> p_DeletedAt p) (players db) of
             None \<Rightarrow> Inl ErrRecordNotFound
           | Some p \<Rightarrow> Inr p)"

definition liveMatch :: "DB \<Rightarrow> uuid \<Rightarrow> Match option" where
  "liveMatch db i = find (\<lambda>m. m_ID m = i \<and> \<not> m_DeletedAt m) (matches db)"

definition matchRepo_FindByID :: "env \<Rightarrow> DB \<Rightarrow> uuid \<Rightarrow> dberr + Match" where
  "matchRepo_FindByID e db i =
     (if dbFails e MatchFindByID then Inl ErrStorage
      else case liveMatch db i of
             None \<Rightarrow> Inl ErrRecordNotFound
           | Some m \<Rightarrow> Inr m)"

definition liveGoals :: "DB \<Rightarrow> uuid \<Rightarrow> Goal list" where
  "liveGoals db i = filter (\<lambda>g. g_MatchID g = i \<and> \<not> g_DeletedAt g) (goals db)"

definition liveTeam :: "DB \<Rightarrow> uuid \<Rightarrow> Team option" where
  "liveTeam db i = find (\<lambda>t. t_ID t = i \<and> \<not> t_DeletedAt t) (teams db)"

definition livePlayer :: "DB \<Rightarrow> uuid \<Rightarrow> Player option" where
  "livePlayer db i = find (\<lambda>p. p_ID p = i \<and> \<not> p_DeletedAt p) (players db)"

definition loadGoal :: "DB \<Rightarrow> Goal \<Rightarrow> GoalDetail" where
  "loadGoal db g =
     \<lparr>gd_Goal = g, gd_Player = livePlayer db (g_PlayerID g), gd_Team = liveTeam db (g_TeamID g)\<rparr>"

text \<open>
  \<^verbatim>\<open>FindByIDWithDetails\<close> preloads the goals ordered by minute; rows of equal
  minute are kept in insertion order (SQL leaves their order open).
\<close>

definition matchRepo_FindByIDWithDetails :: "env \<Rightarrow> DB \<Rightarrow> uuid \<Rightarrow> dberr + MatchDetail" where
  "matchRepo_FindByIDWithDetails e db i =
     (if dbFails e MatchFindByIDWithDetails then Inl ErrStorage
      else case liveMatch db i of
             None \<Rightarrow> Inl ErrRecordNotFound
           | Some m \<Rightarrow>
               Inr \<lparr>md_Match = m,
                    md_HomeTeam = liveTeam db (m_HomeTeamID m),
                    md_AwayTeam = liveTeam db (m_AwayTeamID m),
                    md_Goals = map (loadGoal db) (sort_key g_Minute (liveGoals db i))\<rparr>)"

text \<open>
  \<^verbatim>\<open>Create\<close>: the \<^verbatim>\<open>BeforeCreate\<close> hook of \<^verbatim>\<open>Base\<close> gives a row without identifier a
  new one; the insert fails when the primary key is already taken.
\<close>

definition BeforeCreate :: "env \<Rightarrow> Match \<Rightarrow> unit + Match" where
  "BeforeCreate e m =
     (if m_ID m = 0
      then (case NewV7 e of None \<Rightarrow> Inl () | Some i \<Rightarrow> Inr (m\<lparr>m_ID := i\<rparr>))
      else Inr m)"

definition matchRepo_Create :: "env \<Rightarrow> DB \<Rightarrow> Match \<Rightarrow> dberr + (Match \<times> DB)" where
  "matchRepo_Create e db m =
     (case BeforeCreate e m of
        Inl _ \<Rightarrow> Inl ErrStorage
      | Inr m' \<Rightarrow>
          if dbFails e MatchCreate \<or> m_ID m' \<in> m_ID ` set (matches db) then Inl ErrStorage
          else Inr (m', db\<lparr>matches := matches db @ [m']\<rparr>))"

text \<open>
  \<^verbatim>\<open>Update\<close> is \<^verbatim>\<open>db.Save\<close>: all columns of the row with the value's primary key
  are overwritten, and the value is inserted when there is no such row.
\<close>

definition save :: "Match \<Rightarrow> Match list \<Rightarrow> Match list" where
  "save m rows =
     (if m_ID m \<in> m_ID ` set rows
      then map (\<lambda>r. if m_ID r = m_ID m then m else r) rows
      else rows @ [m])"

definition matchRepo_Update :: "env \<Rightarrow> DB \<Rightarrow> Match \<Rightarrow> dberr + DB" where
  "matchRepo_Update e db m =
     (if dbFails e MatchUpdate then Inl ErrStorage
      else Inr (db\<lparr>matches := save m (matches db)\<rparr>))"

definition matchRepo_Delete :: "env \<Rightarrow> DB \<Rightarrow> uuid \<Rightarrow> dberr + DB" where
  "matchRepo_Delete e db i =
     (if dbFails e MatchDelete then Inl ErrStorage
      else Inr (db\<lparr>matches :=
                  map (\<lambda>r. if m_ID r = i \<and> \<not> m_DeletedAt r then r\<lparr>m_DeletedAt := True\<rparr> else r)
                    (matches db)\<rparr>))"

text \<open>
  \<^verbatim>\<open>CountWins\<close>: the rows counted by
  \<^verbatim>\<open>status = ? AND ((home_team_id = ? AND home_score > away_score) OR
  (away_team_id = ? AND away_score > home_score))\<close> with \<^verbatim>\<open>"completed"\<close> and the team.
\<close>

definition matchRepo_CountWins :: "env \<Rightarrow> DB \<Rightarrow> uuid \<Rightarrow> dberr + int" where
  "matchRepo_CountWins e db teamID =
     (if dbFails e MatchCountWins then Inl ErrStorage
      else Inr (int (length (filter
             (\<lambda>m. \<not> m_DeletedAt m \<and> m_Status m = ''completed'' \<and>
                  ((m_HomeTeamID m = teamID \<and> m_HomeScore m > m_AwayScore m) \<or>
                   (m_AwayTeamID m = teamID \<and> m_AwayScore m > m_HomeScore m)))
             (matches db)))))"

definition goalRepo_CreateBatch :: "env \<Rightarrow> DB \<Rightarrow> Goal list \<Rightarrow> dberr + DB" where
  "goalRepo_CreateBatch e db gs =
     (if length gs = 0 then Inr db
      else if dbFails e GoalCreateBatch then Inl ErrStorage
      else Inr (db\<lparr>goals := goals db @ gs\<rparr>))"

definition softDelete :: "uuid \<Rightarrow> Goal list \<Rightarrow> Goal list" where
  "softDelete matchID rows =
     map (\<lambda>g. if g_MatchID g = matchID \<and> \<not> g_DeletedAt g then g\<lparr>g_DeletedAt := True\<rparr> else g)
       rows"

definition goalRepo_DeleteByMatchID :: "env \<Rightarrow> DB \<Rightarrow> uuid \<Rightarrow> dberr + DB" where
  "goalRepo_DeleteByMatchID e db matchID =
     (if dbFails e GoalDeleteByMatchID then Inl ErrStorage
      else Inr (db\<lparr>goals := softDelete matchID (goals db)\<rparr>))"

section \<open>Match service\<close>

definition internal :: AppError where
  "internal = ErrInternal ''Internal server error''"

text \<open>\<^verbatim>\<open>toMatchResponse\<close> and \<^verbatim>\<open>toGoalResponse\<close>, on a match and its loaded goals.\<close>

definition toMatchResponse :: "Match \<Rightarrow> GoalDetail list \<Rightarrow> MatchResponse" where
  "toMatchResponse match gs =
     \<lparr>mr_ID = m_ID match,
      mr_HomeTeamID = m_HomeTeamID match,
      mr_AwayTeamID = m_AwayTeamID match,
      mr_MatchDate = m_MatchDate match,
      mr_MatchTime = m_MatchTime match,
      mr_HomeScore = m_HomeScore match,
      mr_AwayScore = m_AwayScore match,
      mr_Status = m_Status match,
      mr_Goals = map gd_Goal gs\<rparr>"

definition Create :: "env \<Rightarrow> DB \<Rightarrow> CreateMatchRequest \<Rightarrow> (AppError + MatchResponse) \<times> DB" where
  "Create e db req =
     (case Parse e (cr_HomeTeamID req) of
        None \<Rightarrow> (Inl (ErrBadRequest ''Invalid home_team_id format''), db)
      | Some homeTeamID \<Rightarrow>
     (case Parse e (cr_AwayTeamID req) of
        None \<Rightarrow> (Inl (ErrBadRequest ''Invalid away_team_id format''), db)
      | Some awayTeamID \<Rightarrow>
     if homeTeamID = awayTeamID
     then (Inl (ErrBadRequest ''Home team and away team cannot be the same''), db)
     else
     (case teamRepo_FindByID e db homeTeamID of
        Inl ErrRecordNotFound \<Rightarrow> (Inl (ErrNotFound ''Home team not found''), db)
      | Inl ErrStorage \<Rightarrow> (Inl internal, db)
      | Inr _ \<Rightarrow>
     (case teamRepo_FindByID e db awayTeamID of
        Inl ErrRecordNotFound \<Rightarrow> (Inl (ErrNotFound ''Away team not found''), db)
      | Inl ErrStorage \<Rightarrow> (Inl internal, db)
      | Inr _ \<Rightarrow>
     (let match = \<lparr>m_ID = 0, m_HomeTeamID = homeTeamID, m_AwayTeamID = awayTeamID,
                   m_MatchDate = cr_MatchDate req, m_MatchTime = cr_MatchTime req,
                   m_HomeScore = 0, m_AwayScore = 0, m_Status = ''scheduled'',
                   m_DeletedAt = False\<rparr>
      in case matchRepo_Create e db match of
           Inl _ \<Rightarrow> (Inl internal, db)
         | Inr (match', db') \<Rightarrow>
             (case matchRepo_FindByID e db' (m_ID match') of
                Inl _ \<Rightarrow> (Inl internal, db')
              | Inr created \<Rightarrow> (Inr (toMatchResponse created []), db')))))))"

definition Update ::
  "env \<Rightarrow> DB \<Rightarrow> uuid \<Rightarrow> UpdateMatchRequest \<Rightarrow> (AppError + MatchResponse) \<times> DB" where
  "Update e db i req =
     (case matchRepo_FindByID e db i of
        Inl ErrRecordNotFound \<Rightarrow> (Inl (ErrNotFound ''Match not found''), db)
      | Inl ErrStorage \<Rightarrow> (Inl internal, db)
      | Inr match \<Rightarrow>
     if m_Status match = ''completed''
     then (Inl (ErrBadRequest ''Cannot update schedule of a completed match''), db)
     else
     (case Parse e (up_HomeTeamID req) of
        None \<Rightarrow> (Inl (ErrBadRequest ''Invalid home_team_id format''), db)
      | Some homeTeamID \<Rightarrow>
     (case Parse e (up_AwayTeamID req) of
        None \<Rightarrow> (Inl (ErrBadRequest ''Invalid away_team_id format''), db)
      | Some awayTeamID \<Rightarrow>
     if homeTeamID = awayTeamID
     then (Inl (ErrBadRequest ''Home team and away team cannot be the same''), db)
     else
     (case teamRepo_FindByID e db homeTeamID of
        Inl ErrRecordNotFound \<Rightarrow> (Inl (ErrNotFound ''Home team not found''), db)
      | Inl ErrStorage \<Rightarrow> (Inl internal, db)
      | Inr _ \<Rightarrow>
     (case teamRepo_FindByID e db awayTeamID of
        Inl ErrRecordNotFound \<Rightarrow> (Inl (ErrNotFound ''Away team not found''), db)
      | Inl ErrStorage \<Rightarrow> (Inl internal, db)
      | Inr _ \<Rightarrow>
     (let match' = match\<lparr>m_HomeTeamID := homeTeamID, m_AwayTeamID := awayTeamID,
                         m_MatchDate := up_MatchDate req, m_MatchTime := up_MatchTime req\<rparr>
      in case matchRepo_Update e db match' of
           Inl _ \<Rightarrow> (Inl internal, db)
         | Inr db' \<Rightarrow> (Inr (toMatchResponse match' []), db')))))))"

definition Delete :: "env \<Rightarrow> DB \<Rightarrow> uuid \<Rightarrow> (AppError + unit) \<times> DB" where
  "Delete e db i =
     (case matchRepo_FindByID e db i of
        Inl ErrRecordNotFound \<Rightarrow> (Inl (ErrNotFound ''Match not found''), db)
      | Inl ErrStorage \<Rightarrow> (Inl internal, db)
      | Inr _ \<Rightarrow>
          (case matchRepo_Delete e db i of
             Inl _ \<Rightarrow> (Inl internal, db)
           | Inr db' \<Rightarrow> (Inr (), db')))"

text \<open>
  The loop of \<^verbatim>\<open>processResult\<close> over the submitted goals, from goal number
  \<open>i + 1\<close> on, with the running scores and the goals built so far. It only reads
  the database.
\<close>

fun processGoals ::
  "env \<Rightarrow> DB \<Rightarrow> Match \<Rightarrow> nat \<Rightarrow> GoalInput list \<Rightarrow> int \<Rightarrow> int \<Rightarrow> Goal list
     \<Rightarrow> AppError + (int \<times> int \<times> Goal list)" where
  "processGoals e db match i [] homeScore awayScore gs = Inr (homeScore, awayScore, gs)"
| "processGoals e db match i (goalInput # rest) homeScore awayScore gs =
     (case Parse e (gi_PlayerID goalInput) of
        None \<Rightarrow> Inl (ErrBadRequest (goalMsg i ''invalid player_id format''))
      | Some playerID \<Rightarrow>
     (case Parse e (gi_TeamID goalInput) of
        None \<Rightarrow> Inl (ErrBadRequest (goalMsg i ''invalid team_id format''))
      | Some teamID \<Rightarrow>
     if teamID \<noteq> m_HomeTeamID match \<and> teamID \<noteq> m_AwayTeamID match
     then Inl (ErrBadRequest (goalMsg i ''team_id must be either home or away team''))
     else
     (case playerRepo_FindByID e db playerID of
        Inl ErrRecordNotFound \<Rightarrow> Inl (ErrNotFound (goalMsg i ''player not found''))
      | Inl ErrStorage \<Rightarrow> Inl internal
      | Inr player \<Rightarrow>
     if p_TeamID player \<noteq> teamID
     then Inl (ErrBadRequest (goalMsg i ''player does not belong to the specified team''))
     else
       processGoals e db match (i + 1) rest
         (if teamID = m_HomeTeamID match then homeScore + 1 else homeScore)
         (if teamID = m_HomeTeamID match then awayScore else awayScore + 1)
         (gs @ [\<lparr>g_MatchID = m_ID match, g_PlayerID = playerID, g_TeamID = teamID,
                  g_Minute = gi_Minute goalInput, g_DeletedAt = False\<rparr>]))))"

definition processResult ::
  "env \<Rightarrow> DB \<Rightarrow> Match \<Rightarrow> MatchResultRequest \<Rightarrow> (AppError + MatchResponse) \<times> DB" where
  "processResult e db match req =
     (case processGoals e db match 0 (Goals req) 0 0 [] of
        Inl err \<Rightarrow> (Inl err, db)
      | Inr (homeScore, awayScore, gs) \<Rightarrow>
     (case (if length gs > 0 then goalRepo_CreateBatch e db gs else Inr db) of
        Inl _ \<Rightarrow> (Inl internal, db)
      | Inr db1 \<Rightarrow>
     (let match' = match\<lparr>m_HomeScore := homeScore, m_AwayScore := awayScore,
                         m_Status := ''completed''\<rparr>
      in case matchRepo_Update e db1 match' of
           Inl _ \<Rightarrow> (Inl internal, db1)
         | Inr db2 \<Rightarrow>
             (case matchRepo_FindByIDWithDetails e db2 (m_ID match') of
                Inl _ \<Rightarrow> (Inl internal, db2)
              | Inr updated \<Rightarrow>
                  (Inr (toMatchResponse (md_Match updated) (md_Goals updated)), db2)))))"

definition SubmitResult ::
  "env \<Rightarrow> DB \<Rightarrow> uuid \<Rightarrow> MatchResultRequest \<Rightarrow> (AppError + MatchResponse) \<times> DB" where
  "SubmitResult e db matchID req =
     (case matchRepo_FindByID e db matchID of
        Inl ErrRecordNotFound \<Rightarrow> (Inl (ErrNotFound ''Match not found''), db)
      | Inl ErrStorage \<Rightarrow> (Inl internal, db)
      | Inr match \<Rightarrow>
          if m_Status match = ''completed''
          then (Inl (ErrBadRequest ''Match result already submitted. Use PUT to update.''), db)
          else processResult e db match req)"

definition UpdateResult ::
  "env \<Rightarrow> DB \<Rightarrow> uuid \<Rightarrow> MatchResultRequest \<Rightarrow> (AppError + MatchResponse) \<times> DB" where
  "UpdateResult e db matchID req =
     (case matchRepo_FindByID e db matchID of
        Inl ErrRecordNotFound \<Rightarrow> (Inl (ErrNotFound ''Match not found''), db)
      | Inl ErrStorage \<Rightarrow> (Inl internal, db)
      | Inr match \<Rightarrow>
          if m_Status match \<noteq> ''completed''
          then (Inl (ErrBadRequest
                  ''Cannot update result of a match that has not been completed. Use POST to submit first.''), db)
          else
            (case goalRepo_DeleteByMatchID e db matchID of
               Inl _ \<Rightarrow> (Inl internal, db)
             | Inr db' \<Rightarrow> processResult e db' match req))"

section \<open>Match handler: result endpoints\<close>

text \<open>
  \<^verbatim>\<open>ShouldBindJSON\<close> on a decoded body (\<open>None\<close>: no \<^verbatim>\<open>goals\<close> array), checking the
  binding tags of \<^verbatim>\<open>dto.MatchResultRequest\<close> (\<^verbatim>\<open>required,dive\<close>) and of
  \<^verbatim>\<open>dto.GoalInput\<close> (\<^verbatim>\<open>required,uuid\<close> on both identifiers, \<^verbatim>\<open>required,gte=1\<close> on the
  minute): \<^verbatim>\<open>required\<close> rejects the zero value, and a nil slice.
\<close>

definition bindGoalInput :: "env \<Rightarrow> GoalInput \<Rightarrow> bool" where
  "bindGoalInput e g \<longleftrightarrow>
     gi_PlayerID g \<noteq> [] \<and> isUUID e (gi_PlayerID g) \<and>
     gi_TeamID g \<noteq> [] \<and> isUUID e (gi_TeamID g) \<and>
     gi_Minute g \<noteq> 0 \<and> gi_Minute g \<ge> 1"

definition ShouldBindJSON :: "env \<Rightarrow> GoalInput list option \<Rightarrow> string + MatchResultRequest" where
  "ShouldBindJSON e body =
     (case body of
        None \<Rightarrow> Inl (bindErrorText e body)
      | Some gs \<Rightarrow>
          if list_all (bindGoalInput e) gs then Inr \<lparr>Goals = gs\<rparr>
          else Inl (bindErrorText e body))"

definition parseUUID :: "env \<Rightarrow> string \<Rightarrow> AppError + uuid" where
  "parseUUID e param =
     (case Parse e param of
        None \<Rightarrow> Inl (ErrBadRequest ''Invalid UUID format for parameter'')
      | Some i \<Rightarrow> Inr i)"

definition handler_SubmitResult ::
  "env \<Rightarrow> DB \<Rightarrow> string \<Rightarrow> GoalInput list option \<Rightarrow> (AppError + MatchResponse) \<times> DB" where
  "handler_SubmitResult e db param body =
     (case parseUUID e param of
        Inl err \<Rightarrow> (Inl err, db)
      | Inr i \<Rightarrow>
          (case ShouldBindJSON e body of
             Inl err \<Rightarrow> (Inl (ErrBadRequest (''Invalid request body: '' @ err)), db)
           | Inr req \<Rightarrow> SubmitResult e db i req))"

definition handler_UpdateResult ::
  "env \<Rightarrow> DB \<Rightarrow> string \<Rightarrow> GoalInput list option \<Rightarrow> (AppError + MatchResponse) \<times> DB" where
  "handler_UpdateResult e db param body =
     (case parseUUID e param of
        Inl err \<Rightarrow> (Inl err, db)
      | Inr i \<Rightarrow>
          (case ShouldBindJSON e body of
             Inl err \<Rightarrow> (Inl (ErrBadRequest (''Invalid request body: '' @ err)), db)
           | Inr req \<Rightarrow> UpdateResult e db i req))"

section \<open>Report service\<close>

definition computeMatchResult :: "int \<Rightarrow> int \<Rightarrow> string" where
  "computeMatchResult homeScore awayScore =
     (if homeScore > awayScore then ''Home Win''
      else if awayScore > homeScore then ''Away Win''
      else ''Draw'')"


text \<open>
  The first loop of \<^verbatim>\<open>GetMatchReportByID\<close>. The Go map \<^verbatim>\<open>playerGoals\<close> is an
  association list with one entry per key, in the order of first insertion.
\<close>

definition playerNameOf :: "GoalDetail \<Rightarrow> string" where
  "playerNameOf goal = (case gd_Player goal of None \<Rightarrow> [] | Some p \<Rightarrow> p_Name p)"

definition teamNameOf :: "GoalDetail \<Rightarrow> string" where
  "teamNameOf goal = (case gd_Team goal of None \<Rightarrow> [] | Some t \<Rightarrow> t_Name t)"

definition reportGoal :: "GoalDetail \<Rightarrow> MatchReportGoal" where
  "reportGoal goal =
     \<lparr>rg_PlayerName = playerNameOf goal, rg_TeamName = teamNameOf goal,
      rg_Minute = g_Minute (gd_Goal goal)\<rparr>"

definition accumulate ::
  "(uuid \<times> playerGoalCount) list \<Rightarrow> GoalDetail \<Rightarrow> (uuid \<times> playerGoalCount) list" where
  "accumulate playerGoals goal =
     (let k = g_PlayerID (gd_Goal goal);
          pg = (if k \<in> fst ` set playerGoals then playerGoals
                else playerGoals @
                  [(k, \<lparr>pgc_PlayerName = playerNameOf goal, pgc_TeamName = teamNameOf goal,
                        pgc_Count = 0\<rparr>)])
      in map (\<lambda>(k', c). if k' = k then (k', c\<lparr>pgc_Count := pgc_Count c + 1\<rparr>) else (k', c)) pg)"

text \<open>The second loop: the scan for the top scorer, in the order \<^verbatim>\<open>range\<close> gives.\<close>

fun topScorerScan ::
  "(uuid \<times> playerGoalCount) list \<Rightarrow> int \<Rightarrow> TopScorerResponse option
     \<Rightarrow> TopScorerResponse option" where
  "topScorerScan [] maxGoals topScorer = topScorer"
| "topScorerScan ((k, pg) # rest) maxGoals topScorer =
     (if pgc_Count pg > maxGoals
      then topScorerScan rest (pgc_Count pg)
             (Some \<lparr>ts_PlayerName = pgc_PlayerName pg, ts_TeamName = pgc_TeamName pg,
                    ts_GoalsInMatch = pgc_Count pg\<rparr>)
      else topScorerScan rest maxGoals topScorer)"

definition GetMatchReportByID :: "env \<Rightarrow> DB \<Rightarrow> uuid \<Rightarrow> AppError + MatchReportResponse" where
  "GetMatchReportByID e db matchID =
     (case matchRepo_FindByIDWithDetails e db matchID of
        Inl ErrRecordNotFound \<Rightarrow> Inl (ErrNotFound ''Match not found'')
      | Inl ErrStorage \<Rightarrow> Inl internal
      | Inr md \<Rightarrow>
     (let match = md_Match md in
      if m_Status match \<noteq> ''completed''
      then Inl (ErrBadRequest ''Match has not been completed yet'')
      else
     (let reportGoals = map reportGoal (md_Goals md);
          playerGoals = foldl accumulate [] (md_Goals md);
          topScorer = topScorerScan (rangeOrder e playerGoals) 0 None
      in case matchRepo_CountWins e db (m_HomeTeamID match) of
           Inl _ \<Rightarrow> Inl internal
         | Inr homeTeamWins \<Rightarrow>
        (case matchRepo_CountWins e db (m_AwayTeamID match) of
           Inl _ \<Rightarrow> Inl internal
         | Inr awayTeamWins \<Rightarrow>
             Inr \<lparr>rp_MatchID = m_ID match,
                  rp_MatchDate = m_MatchDate match,
                  rp_MatchTime = m_MatchTime match,
                  rp_HomeScore = m_HomeScore match,
                  rp_AwayScore = m_AwayScore match,
                  rp_MatchResult = computeMatchResult (m_HomeScore match) (m_AwayScore match),
                  rp_Goals = reportGoals,
                  rp_TopScorer = topScorer,
                  rp_HomeTeamTotalWins = homeTeamWins,
                  rp_AwayTeamTotalWins = awayTeamWins\<rparr>))))"

section \<open>Sequences of operations\<close>

text \<open>
  The write operations of the match service, each run in the environment of its
  own call; a run keeps the database each call leaves, whatever the call returns.
\<close>

datatype op =
    OpCreate CreateMatchRequest
  | OpUpdate uuid UpdateMatchRequest
  | OpDelete uuid
  | OpSubmitResult uuid MatchResultRequest
  | OpUpdateResult uuid MatchResultRequest

fun exec :: "env \<Rightarrow> DB \<Rightarrow> op \<Rightarrow> DB" where
  "exec e db (OpCreate req) = snd (Create e db req)"
| "exec e db (OpUpdate i req) = snd (Update e db i req)"
| "exec e db (OpDelete i) = snd (Delete e db i)"
| "exec e db (OpSubmitResult i req) = snd (SubmitResult e db i req)"
| "exec e db (OpUpdateResult i req) = snd (UpdateResult e db i req)"

fun run :: "DB \<Rightarrow> (env \<times> op) list \<Rightarrow> DB" where
  "run db [] = db"
| "run db ((e, x) # rest) = run (exec e db x) rest"

section \<open>Notions of the specification\<close>

text \<open>
  The cumulative wins of a team as the specification words them: the completed
  matches in which the team is on the winning side of the outcome classification.
\<close>

definition onWinningSide :: "uuid \<Rightarrow> Match \<Rightarrow> bool" where
  "onWinningSide teamID m \<longleftrightarrow>
     (m_HomeTeamID m = teamID \<and> computeMatchResult (m_HomeScore m) (m_AwayScore m) = ''Home Win'') \<or>
     (m_AwayTeamID m = teamID \<and> computeMatchResult (m_HomeScore m) (m_AwayScore m) = ''Away Win'')"

definition computeCumulativeWins :: "DB \<Rightarrow> uuid \<Rightarrow> int" where
  "computeCumulativeWins db teamID =
     int (length (filter (\<lambda>m. m_Status m = ''completed'' \<and> onWinningSide teamID m)
                    (filter (\<lambda>m. \<not> m_DeletedAt m) (matches db))))"

text \<open>The invariant of a match row: distinct teams, and a valid status.\<close>

definition matchInvariant :: "Match \<Rightarrow> bool" where
  "matchInvariant m \<longleftrightarrow>
     m_HomeTeamID m \<noteq> m_AwayTeamID m \<and> m_Status m \<in> set ValidMatchStatuses"

text \<open>
  The identifier is in use in the match table, and the live row it names, if
  there is one, is completed.
\<close>

definition completedIn :: "uuid \<Rightarrow> Match list \<Rightarrow> bool" where
  "completedIn i rows \<longleftrightarrow>
     i \<in> m_ID ` set rows \<and>
     (\<forall>m. find (\<lambda>r. m_ID r = i \<and> \<not> m_DeletedAt r) rows = Some m \<longrightarrow> m_Status m = ''completed'')"

text \<open>The number of goals of a player among the goals of a match.\<close>

definition goalCount :: "Goal list \<Rightarrow> uuid \<Rightarrow> int" where
  "goalCount gs playerID = int (length (filter (\<lambda>g. g_PlayerID g = playerID) gs))"

definition nameOfPlayer :: "DB \<Rightarrow> uuid \<Rightarrow> string" where
  "nameOfPlayer db playerID = (case livePlayer db playerID of None \<Rightarrow> [] | Some p \<Rightarrow> p_Name p)"

section \<open>A small league\<close>

text \<open>
  Two teams with one player each and one match between them, in three states:
  scheduled, completed 2-1 with three goals, and scheduled with the three goal
  rows written but the match row not yet saved. Identifiers are parsed from short
  names; in one environment saving a match fails.
\<close>

definition demo_parse :: "string \<Rightarrow> uuid option" where
  "demo_parse s =
     (if s = ''A'' then Some 1 else if s = ''B'' then Some 2 else if s = ''C'' then Some 3
      else if s = ''a1'' then Some 11 else if s = ''b1'' then Some 21
      else if s = ''M'' then Some 100 else None)"

definition demo_env :: env where
  "demo_env = \<lparr>Parse = demo_parse, NewV7 = Some 101, dbFails = (\<lambda>_. False), rangeOrder = rev,
               isUUID = (\<lambda>_. True), bindErrorText = (\<lambda>_. ''validation failed'')\<rparr>"

definition demo_teams :: "Team list" where
  "demo_teams = [\<lparr>t_ID = 1, t_Name = ''A'', t_DeletedAt = False\<rparr>,
                 \<lparr>t_ID = 2, t_Name = ''B'', t_DeletedAt = False\<rparr>]"

definition demo_players :: "Player list" where
  "demo_players = [\<lparr>p_ID = 11, p_TeamID = 1, p_Name = ''a1'', p_DeletedAt = False\<rparr>,
                   \<lparr>p_ID = 21, p_TeamID = 2, p_Name = ''b1'', p_DeletedAt = False\<rparr>]"

definition demo_match :: Match where
  "demo_match = \<lparr>m_ID = 100, m_HomeTeamID = 1, m_AwayTeamID = 2, m_MatchDate = ''2025-06-15'',
                 m_MatchTime = ''19:30'', m_HomeScore = 0, m_AwayScore = 0,
                 m_Status = ''scheduled'', m_DeletedAt = False\<rparr>"

definition demo_goal :: "uuid \<Rightarrow> uuid \<Rightarrow> int \<Rightarrow> Goal" where
  "demo_goal playerID teamID minute =
     \<lparr>g_MatchID = 100, g_PlayerID = playerID, g_TeamID = teamID, g_Minute = minute,
      g_DeletedAt = False\<rparr>"

definition demo_scheduled :: DB where
  "demo_scheduled =
     \<lparr>teams = demo_teams, players = demo_players, matches = [demo_match], goals = []\<rparr>"

definition demo_completed :: DB where
  "demo_completed =
     \<lparr>teams = demo_teams, players = demo_players,
      matches = [demo_match\<lparr>m_HomeScore := 2, m_AwayScore := 1, m_Status := ''completed''\<rparr>],
      goals = [demo_goal 11 1 10, demo_goal 21 2 55, demo_goal 11 1 80]\<rparr>"

definition demo_leftover :: DB where
  "demo_leftover =
     \<lparr>teams = demo_teams, players = demo_players, matches = [demo_match],
      goals = [demo_goal 11 1 10, demo_goal 21 2 55, demo_goal 11 1 80]\<rparr>"

definition demo_update_fails :: env where
  "demo_update_fails = demo_env\<lparr>dbFails := (\<lambda>c. c = MatchUpdate)\<rparr>"

definition demo_result :: MatchResultRequest where
  "demo_result =
     \<lparr>Goals = [\<lparr>gi_PlayerID = ''a1'', gi_TeamID = ''A'', gi_Minute = 10\<rparr>,
               \<lparr>gi_PlayerID = ''b1'', gi_TeamID = ''B'', gi_Minute = 55\<rparr>,
               \<lparr>gi_PlayerID = ''a1'', gi_TeamID = ''A'', gi_Minute = 80\<rparr>]\<rparr>"

definition demo_third_team :: MatchResultRequest where
  "demo_third_team = \<lparr>Goals = [\<lparr>gi_PlayerID = ''a1'', gi_TeamID = ''C'', gi_Minute = 10\<rparr>]\<rparr>"

definition demo_minute_zero :: "GoalInput list" where
  "demo_minute_zero = [\<lparr>gi_PlayerID = ''a1'', gi_TeamID = ''A'', gi_Minute = 0\<rparr>]"

section \<open>Facts about the repositories\<close>

lemma find_live_SomeD:
  "find (\<lambda>r. m_ID r = i \<and> \<not> m_DeletedAt r) xs = Some m \<Longrightarrow>
     m \<in> set xs \<and> m_ID m = i \<and> \<not> m_DeletedAt m"
  by (induction xs) (auto split: if_splits)

lemma liveMatch_SomeD:
  "liveMatch db i = Some m \<Longrightarrow> m \<in> set (matches db) \<and> m_ID m = i \<and> \<not> m_DeletedAt m"
  unfolding liveMatch_def by (rule find_live_SomeD)

lemma find_live_replace:
  assumes "m_ID m' = i" and "\<not> m_DeletedAt m'"
  shows "find (\<lambda>r. m_ID r = i \<and> \<not> m_DeletedAt r) (map (\<lambda>r. if m_ID r = i then m' else r) xs) =
           (if i \<in> m_ID ` set xs then Some m' else None)"
  using assms by (induction xs) auto

lemma find_snoc:
  "find P (xs @ [x]) = (case find P xs of Some y \<Rightarrow> Some y | None \<Rightarrow> if P x then Some x else None)"
  by (induction xs) auto

lemma find_live_absent:
  "i \<notin> m_ID ` set xs \<Longrightarrow> find (\<lambda>r. m_ID r = i \<and> \<not> m_DeletedAt r) xs = None"
  by (induction xs) auto

lemma find_live_save_same:
  assumes "m_ID m' = i" and "\<not> m_DeletedAt m'"
  shows "find (\<lambda>r. m_ID r = i \<and> \<not> m_DeletedAt r) (save m' xs) = Some m'"
  using assms by (simp add: save_def find_live_replace find_snoc find_live_absent)

lemma find_live_save_other:
  assumes "m_ID m' \<noteq> i"
  shows "find (\<lambda>r. m_ID r = i \<and> \<not> m_DeletedAt r) (save m' xs) =
           find (\<lambda>r. m_ID r = i \<and> \<not> m_DeletedAt r) xs"
proof -
  have "find (\<lambda>r. m_ID r = i \<and> \<not> m_DeletedAt r) (map (\<lambda>r. if m_ID r = m_ID m' then m' else r) xs) =
          find (\<lambda>r. m_ID r = i \<and> \<not> m_DeletedAt r) xs"
    using assms by (induction xs) auto
  then show ?thesis
    using assms by (simp add: save_def find_snoc split: option.splits)
qed

lemma ids_save: "m_ID ` set (save m' xs) = insert (m_ID m') (m_ID ` set xs)"
  by (auto simp: save_def image_iff)

lemma liveGoals_softDelete: "filter (\<lambda>g. g_MatchID g = i \<and> \<not> g_DeletedAt g) (softDelete i gs) = []"
  by (induction gs) (auto simp: softDelete_def)

section \<open>Outcome classification\<close>

text \<open>
  C5: the outcome classification is defined on every pair of integer scores; it
  is the home win exactly when the home score is greater, the away win exactly
  when the away score is greater, and the draw exactly in the remaining case of
  equal scores.
\<close>

theorem computeMatchResult_classifies:
  "(computeMatchResult homeScore awayScore = ''Home Win'' \<longleftrightarrow> homeScore > awayScore) \<and>
   (computeMatchResult homeScore awayScore = ''Away Win'' \<longleftrightarrow> awayScore > homeScore) \<and>
   (computeMatchResult homeScore awayScore = ''Draw'' \<longleftrightarrow> homeScore = awayScore) \<and>
   computeMatchResult homeScore awayScore \<in> {''Home Win'', ''Away Win'', ''Draw''}"
  by (auto simp: computeMatchResult_def)

section \<open>State conflicts\<close>

text \<open>
  C6: when the match the repository returns has a status that is one of the
  valid statuses and is not scheduled, \<^verbatim>\<open>SubmitResult\<close> fails with the
  already-submitted rejection whatever the goals of the request are, and leaves
  the database as it was.
\<close>

theorem SubmitResult_rejects_completed:
  assumes "matchRepo_FindByID e db matchID = Inr m"
    and "m_Status m \<in> set ValidMatchStatuses"
    and "m_Status m \<noteq> ''scheduled''"
  shows "SubmitResult e db matchID req =
           (Inl (ErrBadRequest ''Match result already submitted. Use PUT to update.''), db)"
  using assms by (simp add: SubmitResult_def ValidMatchStatuses_def)

theorem SubmitResult_rejects_completed_witness:
  "matchRepo_FindByID demo_env demo_completed 100 =
     Inr (demo_match\<lparr>m_HomeScore := 2, m_AwayScore := 1, m_Status := ''completed''\<rparr>) \<and>
   ''completed'' \<in> set ValidMatchStatuses \<and>
   SubmitResult demo_env demo_completed 100 demo_result =
     (Inl (ErrBadRequest ''Match result already submitted. Use PUT to update.''), demo_completed)"
  using SubmitResult_rejects_completed [of demo_env demo_completed 100
      "demo_match\<lparr>m_HomeScore := 2, m_AwayScore := 1, m_Status := ''completed''\<rparr>" demo_result]
  by (simp add: matchRepo_FindByID_def liveMatch_def demo_completed_def demo_match_def
      demo_env_def ValidMatchStatuses_def)

text \<open>
  C7: when the match the repository returns has a status that is not completed,
  \<^verbatim>\<open>UpdateResult\<close> fails with the not-yet-completed rejection and leaves the
  database, so the match and all goals, as it was.
\<close>

theorem UpdateResult_rejects_not_completed:
  assumes "matchRepo_FindByID e db matchID = Inr m"
    and "m_Status m \<noteq> ''completed''"
  shows "UpdateResult e db matchID req =
           (Inl (ErrBadRequest
              ''Cannot update result of a match that has not been completed. Use POST to submit first.''), db)"
  using assms by (simp add: UpdateResult_def)

theorem UpdateResult_rejects_not_completed_witness:
  "matchRepo_FindByID demo_env demo_scheduled 100 = Inr demo_match \<and>
   m_Status demo_match \<noteq> ''completed'' \<and>
   UpdateResult demo_env demo_scheduled 100 demo_result =
     (Inl (ErrBadRequest
        ''Cannot update result of a match that has not been completed. Use POST to submit first.''),
      demo_scheduled)"
  using UpdateResult_rejects_not_completed [of demo_env demo_scheduled 100 demo_match demo_result]
  by (simp add: matchRepo_FindByID_def liveMatch_def demo_scheduled_def demo_match_def
      demo_env_def)

section \<open>Submitting an empty result\<close>

text \<open>
  C10: \<^verbatim>\<open>SubmitResult\<close> with an empty goal list on a scheduled match succeeds;
  the goal table is unchanged, both scores of the match are 0 and its status is
  completed, and every report of the match has the outcome draw.
\<close>

theorem SubmitResult_empty_goal_list:
  assumes "liveMatch db matchID = Some m"
    and "m_Status m = ''scheduled''"
    and "\<not> dbFails e MatchFindByID"
    and "\<not> dbFails e MatchUpdate"
    and "\<not> dbFails e MatchFindByIDWithDetails"
  shows "\<exists>resp db'.
           SubmitResult e db matchID \<lparr>Goals = []\<rparr> = (Inr resp, db') \<and>
           goals db' = goals db \<and>
           liveMatch db' matchID =
             Some (m\<lparr>m_HomeScore := 0, m_AwayScore := 0, m_Status := ''completed''\<rparr>) \<and>
           mr_HomeScore resp = 0 \<and> mr_AwayScore resp = 0 \<and> mr_Status resp = ''completed'' \<and>
           (\<forall>e' r. GetMatchReportByID e' db' matchID = Inr r \<longrightarrow> rp_MatchResult r = ''Draw'')"
proof -
  define m' where "m' = m\<lparr>m_HomeScore := 0, m_AwayScore := 0, m_Status := ''completed''\<rparr>"
  define db' where "db' = db\<lparr>matches := save m' (matches db)\<rparr>"
  from assms(1) have m': "m_ID m' = matchID" "\<not> m_DeletedAt m'"
    by (auto simp: m'_def dest: liveMatch_SomeD)
  have upd: "matchRepo_Update e db m' = Inr db'"
    using assms(4) by (simp add: matchRepo_Update_def db'_def)
  have live': "liveMatch db' matchID = Some m'"
    using m' by (simp add: liveMatch_def db'_def find_live_save_same)
  have sub: "SubmitResult e db matchID \<lparr>Goals = []\<rparr> =
      (Inr (toMatchResponse m' (map (loadGoal db') (sort_key g_Minute (liveGoals db' matchID)))), db')"
    using assms(1,2,3,5) upd live' m'
    by (simp add: SubmitResult_def matchRepo_FindByID_def processResult_def
        matchRepo_FindByIDWithDetails_def Let_def m'_def [symmetric])
  have rep: "\<forall>e' r. GetMatchReportByID e' db' matchID = Inr r \<longrightarrow> rp_MatchResult r = ''Draw''"
    using live'
    by (auto simp: GetMatchReportByID_def matchRepo_FindByIDWithDetails_def Let_def m'_def
        computeMatchResult_def split: if_splits sum.splits dberr.splits)
  show ?thesis
    using sub live' rep by (simp add: toMatchResponse_def db'_def m'_def)
qed

theorem SubmitResult_empty_goal_list_witness:
  "liveMatch demo_scheduled 100 = Some demo_match \<and> m_Status demo_match = ''scheduled'' \<and>
   (\<exists>resp db'.
      SubmitResult demo_env demo_scheduled 100 \<lparr>Goals = []\<rparr> = (Inr resp, db') \<and>
      goals db' = [] \<and>
      liveMatch db' 100 =
        Some (demo_match\<lparr>m_HomeScore := 0, m_AwayScore := 0, m_Status := ''completed''\<rparr>) \<and>
      mr_Status resp = ''completed'')"
proof -
  have h: "liveMatch demo_scheduled 100 = Some demo_match" "m_Status demo_match = ''scheduled''"
    "\<not> dbFails demo_env MatchFindByID" "\<not> dbFails demo_env MatchUpdate"
    "\<not> dbFails demo_env MatchFindByIDWithDetails"
    by (simp_all add: liveMatch_def demo_scheduled_def demo_match_def demo_env_def)
  have g: "goals demo_scheduled = []"
    by (simp add: demo_scheduled_def)
  show ?thesis
    using h(1,2) g SubmitResult_empty_goal_list [OF h] by auto
qed

section \<open>Cumulative wins\<close>

text \<open>
  C9: for every team and every database, the win count the repository returns is
  the number of completed matches in which the team is on the winning side of
  the outcome classification (home team of a home win, or away team of an away
  win); the two totals of a match report are these counts for the two teams of
  the match. The count is returned unless the storage call itself fails.
\<close>

theorem CountWins_is_computeCumulativeWins:
  "matchRepo_CountWins e db teamID =
     (if dbFails e MatchCountWins then Inl ErrStorage else Inr (computeCumulativeWins db teamID)) \<and>
   (\<forall>r m. GetMatchReportByID e db matchID = Inr r \<and> liveMatch db matchID = Some m \<longrightarrow>
      rp_HomeTeamTotalWins r = computeCumulativeWins db (m_HomeTeamID m) \<and>
      rp_AwayTeamTotalWins r = computeCumulativeWins db (m_AwayTeamID m))"
proof -
  have eq: "\<And>t. int (length (filter
             (\<lambda>m. \<not> m_DeletedAt m \<and> m_Status m = ''completed'' \<and>
                  ((m_HomeTeamID m = t \<and> m_HomeScore m > m_AwayScore m) \<or>
                   (m_AwayTeamID m = t \<and> m_AwayScore m > m_HomeScore m)))
             (matches db))) = computeCumulativeWins db t"
    unfolding computeCumulativeWins_def onWinningSide_def filter_filter
    by (rule arg_cong [where f = "\<lambda>P. int (length (filter P (matches db)))"])
       (auto simp: computeMatchResult_def fun_eq_iff)
  have cw: "\<And>t. matchRepo_CountWins e db t =
     (if dbFails e MatchCountWins then Inl ErrStorage else Inr (computeCumulativeWins db t))"
    by (simp add: matchRepo_CountWins_def eq)
  show ?thesis
    by (auto simp: cw GetMatchReportByID_def matchRepo_FindByIDWithDetails_def Let_def
        split: if_splits sum.splits dberr.splits option.splits)
qed

theorem CountWins_is_computeCumulativeWins_witness:
  "matchRepo_CountWins demo_env demo_completed 1 = Inr 1 \<and>
   matchRepo_CountWins demo_env demo_completed 2 = Inr 0 \<and>
   (\<exists>r. GetMatchReportByID demo_env demo_completed 100 = Inr r \<and>
      rp_HomeTeamTotalWins r = 1 \<and> rp_AwayTeamTotalWins r = 0)"
proof -
  have l: "liveMatch demo_completed 100 =
      Some (demo_match\<lparr>m_HomeScore := 2, m_AwayScore := 1, m_Status := ''completed''\<rparr>)"
    by (simp add: liveMatch_def demo_completed_def demo_match_def)
  have w1: "computeCumulativeWins demo_completed 1 = 1"
    by (simp add: computeCumulativeWins_def onWinningSide_def computeMatchResult_def
        demo_completed_def demo_match_def)
  have w2: "computeCumulativeWins demo_completed 2 = 0"
    by (simp add: computeCumulativeWins_def onWinningSide_def computeMatchResult_def
        demo_completed_def demo_match_def)
  have f: "\<not> dbFails demo_env MatchCountWins"
    by (simp add: demo_env_def)
  have "\<exists>r. GetMatchReportByID demo_env demo_completed 100 = Inr r"
    by (simp add: GetMatchReportByID_def matchRepo_FindByIDWithDetails_def liveMatch_def
        matchRepo_CountWins_def Let_def demo_env_def demo_completed_def demo_match_def)
  then obtain r where r: "GetMatchReportByID demo_env demo_completed 100 = Inr r"
    by blast
  show ?thesis
    using CountWins_is_computeCumulativeWins [of demo_env demo_completed 1 100]
      CountWins_is_computeCumulativeWins [of demo_env demo_completed 2 100] l w1 w2 f r
    by (auto simp: demo_match_def)
qed

section \<open>The minute of a goal\<close>

text \<open>
  C3 fails on the service: a goal with minute 0 submitted to \<^verbatim>\<open>SubmitResult\<close> on the
  scheduled match is accepted, stored and counted.
\<close>

theorem SubmitResult_minute_zero_counterexample:
  "SubmitResult demo_env demo_scheduled 100 \<lparr>Goals = demo_minute_zero\<rparr> =
     (Inr \<lparr>mr_ID = 100, mr_HomeTeamID = 1, mr_AwayTeamID = 2, mr_MatchDate = ''2025-06-15'',
           mr_MatchTime = ''19:30'', mr_HomeScore = 1, mr_AwayScore = 0,
           mr_Status = ''completed'', mr_Goals = [demo_goal 11 1 0]\<rparr>,
      demo_scheduled\<lparr>matches := [demo_match\<lparr>m_HomeScore := 1, m_Status := ''completed''\<rparr>],
                      goals := [demo_goal 11 1 0]\<rparr>)"
  by (simp add: SubmitResult_def matchRepo_FindByID_def liveMatch_def processResult_def
      playerRepo_FindByID_def goalRepo_CreateBatch_def matchRepo_Update_def save_def
      matchRepo_FindByIDWithDetails_def liveGoals_def loadGoal_def livePlayer_def liveTeam_def
      toMatchResponse_def Let_def demo_env_def demo_parse_def demo_scheduled_def demo_match_def
      demo_minute_zero_def demo_goal_def demo_players_def demo_teams_def)

text \<open>
  C3, amended: the match service does not look at the minute; the bound is the
  binding tag \<^verbatim>\<open>gte=1\<close> of \<^verbatim>\<open>dto.GoalInput\<close>, checked when the handler binds the
  request. A result request with a goal of minute below 1 is rejected by both
  result handlers with status 400 (the invalid-request-body message when the
  match identifier parses), before the service is called, and the database is
  unchanged.
\<close>

theorem handler_rejects_minute_below_one:
  assumes "g \<in> set gs" and "gi_Minute g < 1"
  shows "(\<exists>err. handler_SubmitResult e db param (Some gs) = (Inl err, db) \<and> Code err = 400 \<and>
            (Parse e param \<noteq> None \<longrightarrow>
               err = ErrBadRequest (''Invalid request body: '' @ bindErrorText e (Some gs)))) \<and>
         (\<exists>err. handler_UpdateResult e db param (Some gs) = (Inl err, db) \<and> Code err = 400 \<and>
            (Parse e param \<noteq> None \<longrightarrow>
               err = ErrBadRequest (''Invalid request body: '' @ bindErrorText e (Some gs))))"
proof -
  have "\<not> bindGoalInput e g"
    using assms(2) by (simp add: bindGoalInput_def)
  with assms(1) have "\<not> list_all (bindGoalInput e) gs"
    by (auto simp: list_all_iff)
  then have b: "ShouldBindJSON e (Some gs) = Inl (bindErrorText e (Some gs))"
    by (simp add: ShouldBindJSON_def)
  show ?thesis
    using b by (cases "Parse e param")
      (simp_all add: handler_SubmitResult_def handler_UpdateResult_def parseUUID_def
        ErrBadRequest_def)
qed

theorem handler_rejects_minute_below_one_witness:
  "handler_SubmitResult demo_env demo_scheduled ''M'' (Some demo_minute_zero) =
     (Inl (ErrBadRequest ''Invalid request body: validation failed''), demo_scheduled) \<and>
   handler_UpdateResult demo_env demo_completed ''M'' (Some demo_minute_zero) =
     (Inl (ErrBadRequest ''Invalid request body: validation failed''), demo_completed)"
  using handler_rejects_minute_below_one [of "\<lparr>gi_PlayerID = ''a1'', gi_TeamID = ''A'', gi_Minute = 0\<rparr>"
      demo_minute_zero demo_env demo_scheduled "''M''"]
    handler_rejects_minute_below_one [of "\<lparr>gi_PlayerID = ''a1'', gi_TeamID = ''A'', gi_Minute = 0\<rparr>"
      demo_minute_zero demo_env demo_completed "''M''"]
  by (auto simp: demo_minute_zero_def demo_env_def demo_parse_def)

section \<open>Validation failures and writes\<close>

lemma processResult_rejection:
  assumes "processResult e db match req = (Inl err, db')" and "Code err \<noteq> 500"
  shows "db' = db"
  using assms
  by (auto simp: processResult_def Let_def internal_def ErrInternal_def
      split: sum.splits prod.splits if_splits)

text \<open>
  C2 fails for \<^verbatim>\<open>UpdateResult\<close>: on the completed match, a request whose goal names a
  third team is rejected, and the three goals the match had are marked deleted.
\<close>

theorem UpdateResult_failed_validation_counterexample:
  "UpdateResult demo_env demo_completed 100 demo_third_team =
     (Inl (ErrBadRequest ''Goal #1: team_id must be either home or away team''),
      demo_completed\<lparr>goals := [(demo_goal 11 1 10)\<lparr>g_DeletedAt := True\<rparr>,
                               (demo_goal 21 2 55)\<lparr>g_DeletedAt := True\<rparr>,
                               (demo_goal 11 1 80)\<lparr>g_DeletedAt := True\<rparr>]\<rparr>) \<and>
   liveGoals demo_completed 100 = [demo_goal 11 1 10, demo_goal 21 2 55, demo_goal 11 1 80] \<and>
   liveGoals (snd (UpdateResult demo_env demo_completed 100 demo_third_team)) 100 = []"
  by (simp add: UpdateResult_def matchRepo_FindByID_def liveMatch_def processResult_def
      goalRepo_DeleteByMatchID_def softDelete_def liveGoals_def goalMsg_def itoa.simps digit_def
      demo_env_def demo_parse_def demo_completed_def demo_match_def demo_third_team_def
      demo_goal_def)

text \<open>
  C2, amended: a \<^verbatim>\<open>SubmitResult\<close> call that fails with any rejection other than
  the internal error (so with every validation rejection of a goal) leaves the
  database as it was. An \<^verbatim>\<open>UpdateResult\<close> call that fails so leaves all tables
  but the goals as they were; when the match was found completed, so that the
  failure is a rejected goal, the goals the match had are marked deleted, else
  the goals are unchanged too. The service does not validate the minute.
\<close>

theorem rejected_result_writes:
  assumes "Code err \<noteq> 500"
  shows "(SubmitResult e db matchID req = (Inl err, db') \<longrightarrow> db' = db) \<and>
         (UpdateResult e db matchID req = (Inl err, db') \<longrightarrow>
            db' = (if \<exists>m. liveMatch db matchID = Some m \<and> m_Status m = ''completed''
                   then db\<lparr>goals := softDelete matchID (goals db)\<rparr> else db))"
proof (intro conjI impI)
  assume "SubmitResult e db matchID req = (Inl err, db')"
  then show "db' = db"
    using assms
    by (auto simp: SubmitResult_def matchRepo_FindByID_def internal_def ErrInternal_def
        split: sum.splits dberr.splits option.splits if_splits dest: processResult_rejection)
next
  assume "UpdateResult e db matchID req = (Inl err, db')"
  then show "db' = (if \<exists>m. liveMatch db matchID = Some m \<and> m_Status m = ''completed''
                    then db\<lparr>goals := softDelete matchID (goals db)\<rparr> else db)"
    using assms
    by (auto simp: UpdateResult_def matchRepo_FindByID_def goalRepo_DeleteByMatchID_def
        internal_def ErrInternal_def
        split: sum.splits dberr.splits option.splits if_splits dest: processResult_rejection)
qed

theorem rejected_result_writes_witness:
  "SubmitResult demo_env demo_scheduled 100 demo_third_team =
     (Inl (ErrBadRequest ''Goal #1: team_id must be either home or away team''), demo_scheduled) \<and>
   snd (UpdateResult demo_env demo_completed 100 demo_third_team) =
     demo_completed\<lparr>goals := softDelete 100 (goals demo_completed)\<rparr>"
proof -
  have c: "Code (ErrBadRequest ''Goal #1: team_id must be either home or away team'') \<noteq> 500"
    by (simp add: ErrBadRequest_def)
  have s: "fst (SubmitResult demo_env demo_scheduled 100 demo_third_team) =
      Inl (ErrBadRequest ''Goal #1: team_id must be either home or away team'')"
    by (simp add: SubmitResult_def matchRepo_FindByID_def liveMatch_def processResult_def
      goalMsg_def itoa.simps digit_def
      demo_env_def demo_parse_def demo_scheduled_def demo_match_def demo_third_team_def)
  have u: "fst (UpdateResult demo_env demo_completed 100 demo_third_team) =
      Inl (ErrBadRequest ''Goal #1: team_id must be either home or away team'')"
    by (simp add: UpdateResult_def matchRepo_FindByID_def liveMatch_def processResult_def
      goalRepo_DeleteByMatchID_def goalMsg_def itoa.simps digit_def
      demo_env_def demo_parse_def demo_completed_def demo_match_def demo_third_team_def)
  have l: "liveMatch demo_completed 100 =
      Some (demo_match\<lparr>m_HomeScore := 2, m_AwayScore := 1, m_Status := ''completed''\<rparr>)"
    by (simp add: liveMatch_def demo_completed_def demo_match_def)
  show ?thesis
    using rejected_result_writes [OF c, of demo_env demo_scheduled 100 demo_third_team
        "snd (SubmitResult demo_env demo_scheduled 100 demo_third_team)"]
      rejected_result_writes [OF c, of demo_env demo_completed 100 demo_third_team
        "snd (UpdateResult demo_env demo_completed 100 demo_third_team)"]
      s u l
    by (auto simp: prod_eq_iff)
qed

section \<open>The invariant of match rows\<close>

lemma set_save: "set (save m' xs) \<subseteq> insert m' (set xs)"
  by (auto simp: save_def)

lemma save_invariant:
  assumes "\<forall>m \<in> set xs. matchInvariant m" and "matchInvariant m'"
  shows "\<forall>m \<in> set (save m' xs). matchInvariant m"
  using assms set_save [of m' xs] by auto

lemma matchRepo_FindByID_InrD:
  "matchRepo_FindByID e db i = Inr m \<Longrightarrow> liveMatch db i = Some m"
  by (auto simp: matchRepo_FindByID_def split: if_splits option.splits)

lemma processResult_matches:
  assumes "processResult e db match req = (r, db')"
  shows "matches db' = matches db \<or>
         (\<exists>h a. matches db' =
            save (match\<lparr>m_HomeScore := h, m_AwayScore := a, m_Status := ''completed''\<rparr>) (matches db))"
proof (cases "processGoals e db match 0 (Goals req) 0 0 []")
  case (Inl err)
  then show ?thesis
    using assms by (simp add: processResult_def)
next
  case (Inr t)
  obtain h a gs where t: "t = (h, a, gs)"
    by (cases t)
  have "matches db' = matches db \<or>
        matches db' = save (match\<lparr>m_HomeScore := h, m_AwayScore := a, m_Status := ''completed''\<rparr>)
                        (matches db)"
    using assms Inr t
    by (auto simp: processResult_def Let_def goalRepo_CreateBatch_def matchRepo_Update_def
        split: sum.splits if_splits)
  then show ?thesis
    by blast
qed

lemma processResult_invariant:
  assumes "processResult e db match req = (r, db')"
    and "match \<in> set (matches db)" and inv: "\<forall>m \<in> set (matches db). matchInvariant m"
  shows "\<forall>m \<in> set (matches db'). matchInvariant m"
proof -
  have new: "matchInvariant (match\<lparr>m_HomeScore := h, m_AwayScore := a, m_Status := ''completed''\<rparr>)"
    for h a
    using assms(2,3) by (auto simp: matchInvariant_def ValidMatchStatuses_def)
  from processResult_matches [OF assms(1)] show ?thesis
  proof
    assume "matches db' = matches db"
    with inv show ?thesis by simp
  next
    assume "\<exists>h a. matches db' =
        save (match\<lparr>m_HomeScore := h, m_AwayScore := a, m_Status := ''completed''\<rparr>) (matches db)"
    then obtain h a where "matches db' =
        save (match\<lparr>m_HomeScore := h, m_AwayScore := a, m_Status := ''completed''\<rparr>) (matches db)"
      by blast
    then show ?thesis
      using save_invariant [OF inv new] by simp
  qed
qed

lemma Update_matches:
  "matches (snd (Update e db i req)) = matches db \<or>
   (\<exists>match h a d t. liveMatch db i = Some match \<and> h \<noteq> a \<and> m_Status match \<noteq> ''completed'' \<and>
      matches (snd (Update e db i req)) =
        save (match\<lparr>m_HomeTeamID := h, m_AwayTeamID := a, m_MatchDate := d, m_MatchTime := t\<rparr>)
          (matches db))"
proof (cases "matchRepo_FindByID e db i")
  case (Inl err)
  then show ?thesis
    by (cases err) (simp_all add: Update_def)
next
  case (Inr match)
  note live = matchRepo_FindByID_InrD [OF Inr]
  show ?thesis
  proof (cases "m_Status match = ''completed'' \<or> Parse e (up_HomeTeamID req) = None \<or>
                Parse e (up_AwayTeamID req) = None")
    case True
    then show ?thesis
      using Inr by (auto simp: Update_def split: option.splits)
  next
    case False
    then obtain h a where p: "Parse e (up_HomeTeamID req) = Some h" "Parse e (up_AwayTeamID req) = Some a"
      and st: "m_Status match \<noteq> ''completed''"
      by auto
    have "matches (snd (Update e db i req)) = matches db \<or>
          (h \<noteq> a \<and> matches (snd (Update e db i req)) =
            save (match\<lparr>m_HomeTeamID := h, m_AwayTeamID := a, m_MatchDate := up_MatchDate req,
                         m_MatchTime := up_MatchTime req\<rparr>) (matches db))"
      using Inr p st
      by (simp add: Update_def Let_def matchRepo_Update_def
          split: sum.splits dberr.splits)
    then show ?thesis
      using live st by blast
  qed
qed

lemma Create_invariant:
  assumes "\<forall>m \<in> set (matches db). matchInvariant m"
  shows "\<forall>m \<in> set (matches (snd (Create e db req))). matchInvariant m"
  using assms
  by (auto simp: Create_def Let_def matchRepo_Create_def BeforeCreate_def matchInvariant_def
      ValidMatchStatuses_def split: option.splits sum.splits dberr.splits if_splits prod.splits)

lemma Update_invariant:
  assumes inv: "\<forall>m \<in> set (matches db). matchInvariant m"
  shows "\<forall>m \<in> set (matches (snd (Update e db i req))). matchInvariant m"
  using Update_matches [of e db i req]
proof
  assume "matches (snd (Update e db i req)) = matches db"
  with inv show ?thesis by simp
next
  assume "\<exists>match h a d t. liveMatch db i = Some match \<and> h \<noteq> a \<and> m_Status match \<noteq> ''completed'' \<and>
      matches (snd (Update e db i req)) =
        save (match\<lparr>m_HomeTeamID := h, m_AwayTeamID := a, m_MatchDate := d, m_MatchTime := t\<rparr>)
          (matches db)"
  then obtain match h a d t where live: "liveMatch db i = Some match" and ha: "h \<noteq> a"
    and eq: "matches (snd (Update e db i req)) =
        save (match\<lparr>m_HomeTeamID := h, m_AwayTeamID := a, m_MatchDate := d, m_MatchTime := t\<rparr>)
          (matches db)"
    by blast
  from live inv have "matchInvariant match"
    by (auto dest: liveMatch_SomeD)
  with ha have "matchInvariant (match\<lparr>m_HomeTeamID := h, m_AwayTeamID := a, m_MatchDate := d,
      m_MatchTime := t\<rparr>)"
    by (simp add: matchInvariant_def)
  from save_invariant [OF inv this] eq show ?thesis
    by simp
qed

lemma Delete_invariant:
  assumes "\<forall>m \<in> set (matches db). matchInvariant m"
  shows "\<forall>m \<in> set (matches (snd (Delete e db i))). matchInvariant m"
  using assms
  by (auto simp: Delete_def matchRepo_Delete_def matchInvariant_def
      split: sum.splits dberr.splits if_splits)

lemma SubmitResult_invariant:
  assumes inv: "\<forall>m \<in> set (matches db). matchInvariant m"
  shows "\<forall>m \<in> set (matches (snd (SubmitResult e db i req))). matchInvariant m"
proof (cases "matchRepo_FindByID e db i")
  case (Inl err)
  then show ?thesis
    using inv by (cases err) (simp_all add: SubmitResult_def)
next
  case (Inr match)
  then have mem: "match \<in> set (matches db)"
    by (auto dest: matchRepo_FindByID_InrD liveMatch_SomeD)
  have "processResult e db match req =
      (fst (processResult e db match req), snd (processResult e db match req))"
    by simp
  from processResult_invariant [OF this mem inv] show ?thesis
    using Inr inv by (simp add: SubmitResult_def)
qed

lemma UpdateResult_invariant:
  assumes inv: "\<forall>m \<in> set (matches db). matchInvariant m"
  shows "\<forall>m \<in> set (matches (snd (UpdateResult e db i req))). matchInvariant m"
proof (cases "matchRepo_FindByID e db i")
  case (Inl err)
  then show ?thesis
    using inv by (cases err) (simp_all add: UpdateResult_def)
next
  case (Inr match)
  define db1 where "db1 = db\<lparr>goals := softDelete i (goals db)\<rparr>"
  have "match \<in> set (matches db)"
    using Inr by (auto dest: matchRepo_FindByID_InrD liveMatch_SomeD)
  then have mem: "match \<in> set (matches db1)"
    by (simp add: db1_def)
  have inv1: "\<forall>m \<in> set (matches db1). matchInvariant m"
    using inv by (simp add: db1_def)
  have "processResult e db1 match req =
      (fst (processResult e db1 match req), snd (processResult e db1 match req))"
    by simp
  from processResult_invariant [OF this mem inv1] show ?thesis
    using Inr inv by (simp add: UpdateResult_def goalRepo_DeleteByMatchID_def db1_def)
qed

lemma exec_invariant:
  assumes inv: "\<forall>m \<in> set (matches db). matchInvariant m"
  shows "\<forall>m \<in> set (matches (exec e db x)). matchInvariant m"
proof (cases x)
  case (OpCreate req)
  then show ?thesis using Create_invariant [OF inv] by simp
next
  case (OpUpdate i req)
  then show ?thesis using Update_invariant [OF inv] by simp
next
  case (OpDelete i)
  then show ?thesis using Delete_invariant [OF inv] by simp
next
  case (OpSubmitResult i req)
  then show ?thesis using SubmitResult_invariant [OF inv] by simp
next
  case (OpUpdateResult i req)
  then show ?thesis using UpdateResult_invariant [OF inv] by simp
qed

lemma run_invariant:
  assumes "\<forall>m \<in> set (matches db). matchInvariant m"
  shows "\<forall>m \<in> set (matches (run db ops)). matchInvariant m"
  using assms
proof (induction ops arbitrary: db)
  case Nil
  then show ?case by simp
next
  case (Cons a ops)
  obtain e x where a: "a = (e, x)" by (cases a)
  show ?case
    unfolding a run.simps by (rule Cons.IH) (rule exec_invariant [OF Cons.prems])
qed

section \<open>Scores of a processed result\<close>

lemma processGoals_scores:
  "processGoals e db m i gis h a gs = Inr (h', a', gs') \<Longrightarrow>
     h' = h + int (length (filter (\<lambda>g. Parse e (gi_TeamID g) = Some (m_HomeTeamID m)) gis)) \<and>
     a' = a + int (length (filter (\<lambda>g. Parse e (gi_TeamID g) \<noteq> Some (m_HomeTeamID m)) gis)) \<and>
     (\<forall>g \<in> set gis. Parse e (gi_TeamID g) = Some (m_HomeTeamID m) \<or>
                     Parse e (gi_TeamID g) = Some (m_AwayTeamID m)) \<and>
     (\<exists>new. gs' = gs @ new \<and> length new = length gis \<and>
            (\<forall>g \<in> set new. g_MatchID g = m_ID m \<and> \<not> g_DeletedAt g))"
proof (induction gis arbitrary: i h a gs)
  case Nil
  then show ?case by simp
next
  case (Cons gi gis)
  from Cons.prems obtain playerID teamID player where
    p: "Parse e (gi_PlayerID gi) = Some playerID" "Parse e (gi_TeamID gi) = Some teamID"
       "teamID = m_HomeTeamID m \<or> teamID = m_AwayTeamID m"
    and rest: "processGoals e db m (i + 1) gis
         (if teamID = m_HomeTeamID m then h + 1 else h)
         (if teamID = m_HomeTeamID m then a else a + 1)
         (gs @ [\<lparr>g_MatchID = m_ID m, g_PlayerID = playerID, g_TeamID = teamID,
                  g_Minute = gi_Minute gi, g_DeletedAt = False\<rparr>]) = Inr (h', a', gs')"
    by (auto split: option.splits if_splits sum.splits dberr.splits)
  from Cons.IH [OF rest] p show ?case
    by (auto split: if_splits)
qed

lemma filter_away:
  assumes "\<forall>g \<in> set gis. f g = Some x \<or> f g = Some y" and "x \<noteq> y"
  shows "filter (\<lambda>g. f g \<noteq> Some x) gis = filter (\<lambda>g. f g = Some y) gis"
  using assms by (intro filter_cong) auto

lemma processResult_success:
  assumes ok: "processResult e db m req = (Inr resp, db')"
    and m: "\<not> m_DeletedAt m" and teams: "m_HomeTeamID m \<noteq> m_AwayTeamID m"
  shows "liveMatch db' (m_ID m) = Some (m\<lparr>
             m_HomeScore := int (length (filter (\<lambda>g. Parse e (gi_TeamID g) = Some (m_HomeTeamID m)) (Goals req))),
             m_AwayScore := int (length (filter (\<lambda>g. Parse e (gi_TeamID g) = Some (m_AwayTeamID m)) (Goals req))),
             m_Status := ''completed''\<rparr>) \<and>
         length (liveGoals db' (m_ID m)) = length (liveGoals db (m_ID m)) + length (Goals req) \<and>
         length (Goals req) =
           length (filter (\<lambda>g. Parse e (gi_TeamID g) = Some (m_HomeTeamID m)) (Goals req)) +
           length (filter (\<lambda>g. Parse e (gi_TeamID g) = Some (m_AwayTeamID m)) (Goals req))"
proof -
  from ok obtain h a gs where pg: "processGoals e db m 0 (Goals req) 0 0 [] = Inr (h, a, gs)"
    by (auto simp: processResult_def split: sum.splits)
  note sc = processGoals_scores [OF pg]
  let ?H = "filter (\<lambda>g. Parse e (gi_TeamID g) = Some (m_HomeTeamID m)) (Goals req)"
  let ?A = "filter (\<lambda>g. Parse e (gi_TeamID g) = Some (m_AwayTeamID m)) (Goals req)"
  have away: "filter (\<lambda>g. Parse e (gi_TeamID g) \<noteq> Some (m_HomeTeamID m)) (Goals req) = ?A"
    using sc teams by (intro filter_away) auto
  have h: "h = int (length ?H)" and a: "a = int (length ?A)"
    using sc away by simp_all
  have gs: "length gs = length (Goals req)" "\<forall>g \<in> set gs. g_MatchID g = m_ID m \<and> \<not> g_DeletedAt g"
    using sc by auto
  have split: "length (Goals req) = length ?H + length ?A"
    using sum_length_filter_compl [of "\<lambda>g. Parse e (gi_TeamID g) = Some (m_HomeTeamID m)" "Goals req"]
    unfolding away [symmetric] by simp
  define m' where "m' = m\<lparr>m_HomeScore := h, m_AwayScore := a, m_Status := ''completed''\<rparr>"
  have fgs: "filter (\<lambda>g. g_MatchID g = m_ID m \<and> \<not> g_DeletedAt g) gs = gs"
    using gs(2) by (simp add: filter_id_conv)
  from ok pg have db': "matches db' = save m' (matches db)" "goals db' = goals db @ gs"
    by (auto simp: processResult_def Let_def m'_def goalRepo_CreateBatch_def matchRepo_Update_def
        split: sum.splits if_splits)
  have "liveMatch db' (m_ID m) = Some m'"
    using m by (simp add: liveMatch_def db'(1) find_live_save_same m'_def)
  moreover have "length (liveGoals db' (m_ID m)) = length (liveGoals db (m_ID m)) + length (Goals req)"
    by (simp add: liveGoals_def db'(2) fgs gs(1))
  ultimately show ?thesis
    using split by (simp add: m'_def h a)
qed

text \<open>
  C1 fails when a previous \<^verbatim>\<open>SubmitResult\<close> wrote its goals and then failed to
  save the match: the match is still scheduled, the next \<^verbatim>\<open>SubmitResult\<close> succeeds
  with the scores 2 and 1 of its own three goals, and the match has six goals.
\<close>

theorem SubmitResult_after_failed_save_counterexample:
  "SubmitResult demo_update_fails demo_scheduled 100 demo_result = (Inl internal, demo_leftover) \<and>
   SubmitResult demo_env demo_leftover 100 demo_result =
     (Inr \<lparr>mr_ID = 100, mr_HomeTeamID = 1, mr_AwayTeamID = 2, mr_MatchDate = ''2025-06-15'',
           mr_MatchTime = ''19:30'', mr_HomeScore = 2, mr_AwayScore = 1,
           mr_Status = ''completed'',
           mr_Goals = [demo_goal 11 1 10, demo_goal 11 1 10, demo_goal 21 2 55,
                       demo_goal 21 2 55, demo_goal 11 1 80, demo_goal 11 1 80]\<rparr>,
      demo_leftover\<lparr>matches := [demo_match\<lparr>m_HomeScore := 2, m_AwayScore := 1,
                                            m_Status := ''completed''\<rparr>],
                     goals := [demo_goal 11 1 10, demo_goal 21 2 55, demo_goal 11 1 80,
                               demo_goal 11 1 10, demo_goal 21 2 55, demo_goal 11 1 80]\<rparr>)"
  by (simp add: SubmitResult_def matchRepo_FindByID_def liveMatch_def processResult_def
      playerRepo_FindByID_def goalRepo_CreateBatch_def matchRepo_Update_def save_def
      matchRepo_FindByIDWithDetails_def liveGoals_def loadGoal_def livePlayer_def liveTeam_def
      toMatchResponse_def Let_def demo_env_def demo_update_fails_def demo_parse_def
      demo_scheduled_def demo_leftover_def demo_match_def demo_result_def demo_goal_def
      demo_players_def demo_teams_def)

text \<open>
  C1, amended: in a database reached by operations of the match service from one
  without matches, after a successful \<^verbatim>\<open>SubmitResult\<close> on a match that had no
  goals, and after every successful \<^verbatim>\<open>UpdateResult\<close>, the stored home score is
  the number of submitted goals whose team is the home team, the away score the
  number whose team is the away team, and their sum the number of goals stored
  for the match.
\<close>

theorem result_scores_count_goals:
  assumes init: "matches db0 = []" and reach: "db = run db0 ops"
    and call: "(SubmitResult e db matchID req = (Inr resp, db') \<and> liveGoals db matchID = []) \<or>
               UpdateResult e db matchID req = (Inr resp, db')"
  shows "\<exists>m m'. liveMatch db matchID = Some m \<and> liveMatch db' matchID = Some m' \<and>
           m_HomeTeamID m' = m_HomeTeamID m \<and> m_AwayTeamID m' = m_AwayTeamID m \<and>
           m_Status m' = ''completed'' \<and>
           m_HomeScore m' =
             int (length (filter (\<lambda>g. Parse e (gi_TeamID g) = Some (m_HomeTeamID m)) (Goals req))) \<and>
           m_AwayScore m' =
             int (length (filter (\<lambda>g. Parse e (gi_TeamID g) = Some (m_AwayTeamID m)) (Goals req))) \<and>
           m_HomeScore m' + m_AwayScore m' = int (length (liveGoals db' matchID))"
proof -
  from call obtain m where m: "liveMatch db matchID = Some m"
    by (auto simp: SubmitResult_def UpdateResult_def matchRepo_FindByID_def
        split: if_splits option.splits)
  then have mm: "m_ID m = matchID" "\<not> m_DeletedAt m" "m \<in> set (matches db)"
    by (auto dest: liveMatch_SomeD)
  have "\<forall>m \<in> set (matches db). matchInvariant m"
    unfolding reach by (rule run_invariant) (simp add: init)
  with mm(3) have teams: "m_HomeTeamID m \<noteq> m_AwayTeamID m"
    by (auto simp: matchInvariant_def)
  from call show ?thesis
  proof
    assume s: "SubmitResult e db matchID req = (Inr resp, db') \<and> liveGoals db matchID = []"
    then have "processResult e db m req = (Inr resp, db')"
      using m by (auto simp: SubmitResult_def matchRepo_FindByID_def split: if_splits)
    from processResult_success [OF this mm(2) teams] s m show ?thesis
      by (simp add: mm(1))
  next
    assume u: "UpdateResult e db matchID req = (Inr resp, db')"
    define db1 where "db1 = db\<lparr>goals := softDelete matchID (goals db)\<rparr>"
    from u have "processResult e db1 m req = (Inr resp, db')"
      using m by (auto simp: UpdateResult_def matchRepo_FindByID_def goalRepo_DeleteByMatchID_def
          db1_def split: if_splits)
    moreover have "liveGoals db1 matchID = []"
      by (simp add: liveGoals_def db1_def liveGoals_softDelete)
    ultimately show ?thesis
      using processResult_success [of e db1 m req resp db', OF _ mm(2) teams] m
      by (simp add: mm(1))
  qed
qed

theorem result_scores_count_goals_witness:
  "matches (demo_scheduled\<lparr>matches := []\<rparr>) = [] \<and>
   demo_scheduled = run (demo_scheduled\<lparr>matches := []\<rparr>)
     [(demo_env\<lparr>NewV7 := Some 100\<rparr>,
       OpCreate \<lparr>cr_HomeTeamID = ''A'', cr_AwayTeamID = ''B'', cr_MatchDate = ''2025-06-15'',
                 cr_MatchTime = ''19:30''\<rparr>)] \<and>
   liveGoals demo_scheduled 100 = [] \<and>
   (\<exists>resp db' m'.
      SubmitResult demo_env demo_scheduled 100 demo_result = (Inr resp, db') \<and>
      liveMatch db' 100 = Some m' \<and> m_HomeScore m' = 2 \<and> m_AwayScore m' = 1 \<and>
      int (length (liveGoals db' 100)) = 3)"
proof -
  have i: "matches (demo_scheduled\<lparr>matches := []\<rparr>) = []"
    by simp
  have r: "demo_scheduled = run (demo_scheduled\<lparr>matches := []\<rparr>)
     [(demo_env\<lparr>NewV7 := Some 100\<rparr>,
       OpCreate \<lparr>cr_HomeTeamID = ''A'', cr_AwayTeamID = ''B'', cr_MatchDate = ''2025-06-15'',
                 cr_MatchTime = ''19:30''\<rparr>)]"
    by (simp add: Create_def teamRepo_FindByID_def matchRepo_Create_def BeforeCreate_def
        matchRepo_FindByID_def liveMatch_def Let_def demo_env_def demo_parse_def
        demo_scheduled_def demo_match_def demo_teams_def)
  have g: "liveGoals demo_scheduled 100 = []"
    by (simp add: liveGoals_def demo_scheduled_def)
  have m: "liveMatch demo_scheduled 100 = Some demo_match"
    by (simp add: liveMatch_def demo_scheduled_def demo_match_def)
  have "\<exists>resp. fst (SubmitResult demo_env demo_scheduled 100 demo_result) = Inr resp"
    by (simp add: SubmitResult_def matchRepo_FindByID_def liveMatch_def processResult_def
        playerRepo_FindByID_def goalRepo_CreateBatch_def matchRepo_Update_def save_def
        matchRepo_FindByIDWithDetails_def Let_def demo_env_def demo_parse_def
        demo_scheduled_def demo_match_def demo_result_def demo_players_def)
  then obtain resp db' where s: "SubmitResult demo_env demo_scheduled 100 demo_result = (Inr resp, db')"
    by (metis prod.collapse)
  have h: "int (length (filter (\<lambda>g. Parse demo_env (gi_TeamID g) = Some (m_HomeTeamID demo_match))
                          (Goals demo_result))) = 2"
    by (simp add: demo_env_def demo_parse_def demo_match_def demo_result_def)
  have a: "int (length (filter (\<lambda>g. Parse demo_env (gi_TeamID g) = Some (m_AwayTeamID demo_match))
                          (Goals demo_result))) = 1"
    by (simp add: demo_env_def demo_parse_def demo_match_def demo_result_def)
  from result_scores_count_goals [OF i r, of demo_env 100 demo_result resp db'] s g m h a
  show ?thesis
    using i r by auto
qed

section \<open>Completed matches stay completed\<close>

lemma Create_matches:
  "matches (snd (Create e db req)) = matches db \<or>
   (\<exists>m'. m_ID m' \<notin> m_ID ` set (matches db) \<and>
      matches (snd (Create e db req)) = matches db @ [m'])"
  by (auto simp: Create_def Let_def matchRepo_Create_def BeforeCreate_def
      split: option.splits sum.splits dberr.splits if_splits prod.splits)

lemma Delete_matches:
  "matches (snd (Delete e db j)) = matches db \<or>
   matches (snd (Delete e db j)) =
     map (\<lambda>r. if m_ID r = j \<and> \<not> m_DeletedAt r then r\<lparr>m_DeletedAt := True\<rparr> else r) (matches db)"
  by (auto simp: Delete_def matchRepo_Delete_def split: sum.splits dberr.splits if_splits)

lemma find_live_mark:
  "find (\<lambda>r. m_ID r = i \<and> \<not> m_DeletedAt r)
     (map (\<lambda>r. if m_ID r = j \<and> \<not> m_DeletedAt r then r\<lparr>m_DeletedAt := True\<rparr> else r) xs) =
   (if j = i then None else find (\<lambda>r. m_ID r = i \<and> \<not> m_DeletedAt r) xs)"
  by (induction xs) auto

lemma ids_mark:
  "m_ID ` set (map (\<lambda>r. if m_ID r = j \<and> \<not> m_DeletedAt r then r\<lparr>m_DeletedAt := True\<rparr> else r) xs) =
   m_ID ` set xs"
  by (induction xs) auto

lemma completedIn_save:
  assumes "completedIn i xs"
    and "m_ID m' = i \<Longrightarrow> \<not> m_DeletedAt m' \<and> m_Status m' = ''completed''"
  shows "completedIn i (save m' xs)"
proof (cases "m_ID m' = i")
  case True
  with assms show ?thesis
    by (simp add: completedIn_def ids_save find_live_save_same)
next
  case False
  with assms(1) show ?thesis
    by (simp add: completedIn_def ids_save find_live_save_other)
qed

lemma processResult_completedIn:
  assumes "processResult e db match req = (r, db')"
    and "\<not> m_DeletedAt match" and "completedIn i (matches db)"
  shows "completedIn i (matches db')"
  using processResult_matches [OF assms(1)]
proof
  assume "matches db' = matches db"
  with assms(3) show ?thesis by simp
next
  assume "\<exists>h a. matches db' =
      save (match\<lparr>m_HomeScore := h, m_AwayScore := a, m_Status := ''completed''\<rparr>) (matches db)"
  then obtain h a where eq: "matches db' =
      save (match\<lparr>m_HomeScore := h, m_AwayScore := a, m_Status := ''completed''\<rparr>) (matches db)"
    by blast
  show ?thesis
    unfolding eq using assms(2) by (intro completedIn_save [OF assms(3)]) simp
qed

lemma Create_completedIn:
  assumes "completedIn i (matches db)"
  shows "completedIn i (matches (snd (Create e db req)))"
  using Create_matches [of e db req]
proof
  assume "matches (snd (Create e db req)) = matches db"
  with assms show ?thesis by simp
next
  assume "\<exists>m'. m_ID m' \<notin> m_ID ` set (matches db) \<and>
      matches (snd (Create e db req)) = matches db @ [m']"
  then obtain m' where new: "m_ID m' \<notin> m_ID ` set (matches db)"
    and eq: "matches (snd (Create e db req)) = matches db @ [m']"
    by blast
  from assms new have "m_ID m' \<noteq> i"
    by (auto simp: completedIn_def)
  with assms show ?thesis
    unfolding eq by (auto simp: completedIn_def find_snoc split: option.splits)
qed

lemma Update_completedIn:
  assumes "completedIn i (matches db)"
  shows "completedIn i (matches (snd (Update e db j req)))"
  using Update_matches [of e db j req]
proof
  assume "matches (snd (Update e db j req)) = matches db"
  with assms show ?thesis by simp
next
  assume "\<exists>match h a d t. liveMatch db j = Some match \<and> h \<noteq> a \<and> m_Status match \<noteq> ''completed'' \<and>
      matches (snd (Update e db j req)) =
        save (match\<lparr>m_HomeTeamID := h, m_AwayTeamID := a, m_MatchDate := d, m_MatchTime := t\<rparr>)
          (matches db)"
  then obtain match h a d t where live: "liveMatch db j = Some match"
    and st: "m_Status match \<noteq> ''completed''"
    and eq: "matches (snd (Update e db j req)) =
        save (match\<lparr>m_HomeTeamID := h, m_AwayTeamID := a, m_MatchDate := d, m_MatchTime := t\<rparr>)
          (matches db)"
    by blast
  from live have id: "m_ID match = j"
    by (auto dest: liveMatch_SomeD)
  have "j \<noteq> i"
    using assms live st by (auto simp: completedIn_def liveMatch_def)
  then show ?thesis
    unfolding eq using id by (intro completedIn_save [OF assms]) simp
qed

lemma Delete_completedIn:
  assumes "completedIn i (matches db)"
  shows "completedIn i (matches (snd (Delete e db j)))"
  using Delete_matches [of e db j]
proof
  assume "matches (snd (Delete e db j)) = matches db"
  with assms show ?thesis by simp
next
  assume eq: "matches (snd (Delete e db j)) =
     map (\<lambda>r. if m_ID r = j \<and> \<not> m_DeletedAt r then r\<lparr>m_DeletedAt := True\<rparr> else r) (matches db)"
  show ?thesis
    unfolding eq completedIn_def ids_mark find_live_mark
    using assms by (simp add: completedIn_def)
qed

lemma SubmitResult_completedIn:
  assumes inv: "completedIn i (matches db)"
  shows "completedIn i (matches (snd (SubmitResult e db j req)))"
proof (cases "matchRepo_FindByID e db j")
  case (Inl err)
  then show ?thesis
    using inv by (cases err) (simp_all add: SubmitResult_def)
next
  case (Inr match)
  then have live: "\<not> m_DeletedAt match"
    by (auto dest: matchRepo_FindByID_InrD liveMatch_SomeD)
  have "processResult e db match req =
      (fst (processResult e db match req), snd (processResult e db match req))"
    by simp
  from processResult_completedIn [OF this live inv] show ?thesis
    using Inr inv by (simp add: SubmitResult_def)
qed

lemma UpdateResult_completedIn:
  assumes inv: "completedIn i (matches db)"
  shows "completedIn i (matches (snd (UpdateResult e db j req)))"
proof (cases "matchRepo_FindByID e db j")
  case (Inl err)
  then show ?thesis
    using inv by (cases err) (simp_all add: UpdateResult_def)
next
  case (Inr match)
  define db1 where "db1 = db\<lparr>goals := softDelete j (goals db)\<rparr>"
  have live: "\<not> m_DeletedAt match"
    using Inr by (auto dest: matchRepo_FindByID_InrD liveMatch_SomeD)
  have inv1: "completedIn i (matches db1)"
    using inv by (simp add: db1_def)
  have "processResult e db1 match req =
      (fst (processResult e db1 match req), snd (processResult e db1 match req))"
    by simp
  from processResult_completedIn [OF this live inv1] show ?thesis
    using Inr inv by (simp add: UpdateResult_def goalRepo_DeleteByMatchID_def db1_def)
qed

lemma exec_completedIn:
  assumes inv: "completedIn i (matches db)"
  shows "completedIn i (matches (exec e db x))"
proof (cases x)
  case (OpCreate req)
  then show ?thesis using Create_completedIn [OF inv] by simp
next
  case (OpUpdate j req)
  then show ?thesis using Update_completedIn [OF inv] by simp
next
  case (OpDelete j)
  then show ?thesis using Delete_completedIn [OF inv] by simp
next
  case (OpSubmitResult j req)
  then show ?thesis using SubmitResult_completedIn [OF inv] by simp
next
  case (OpUpdateResult j req)
  then show ?thesis using UpdateResult_completedIn [OF inv] by simp
qed

lemma run_completedIn:
  assumes "completedIn i (matches db)"
  shows "completedIn i (matches (run db ops))"
  using assms
proof (induction ops arbitrary: db)
  case Nil
  then show ?case by simp
next
  case (Cons a ops)
  obtain e x where a: "a = (e, x)" by (cases a)
  show ?case
    unfolding a run.simps by (rule Cons.IH) (rule exec_completedIn [OF Cons.prems])
qed

text \<open>
  C4: in every sequence of \<^verbatim>\<open>Create\<close>, \<^verbatim>\<open>Update\<close>, \<^verbatim>\<open>Delete\<close>, \<^verbatim>\<open>SubmitResult\<close> and
  \<^verbatim>\<open>UpdateResult\<close> calls, whatever each call returns and whichever storage calls
  fail, a match that is completed is completed, and so not scheduled, in every
  later state in which it is still there.
\<close>

theorem completed_never_scheduled_again:
  assumes "liveMatch db matchID = Some m" and "m_Status m = ''completed''"
    and "liveMatch (run db ops) matchID = Some m'"
  shows "m_Status m' = ''completed'' \<and> m_Status m' \<noteq> ''scheduled''"
proof -
  from assms(1,2) have "completedIn matchID (matches db)"
    by (auto simp: completedIn_def liveMatch_def dest: find_live_SomeD)
  then have "completedIn matchID (matches (run db ops))"
    by (rule run_completedIn)
  with assms(3) show ?thesis
    by (simp add: completedIn_def liveMatch_def)
qed

theorem completed_never_scheduled_again_witness:
  "liveMatch demo_completed 100 =
     Some (demo_match\<lparr>m_HomeScore := 2, m_AwayScore := 1, m_Status := ''completed''\<rparr>) \<and>
   liveMatch
     (run demo_completed
        [(demo_env, OpUpdate 100 \<lparr>up_HomeTeamID = ''B'', up_AwayTeamID = ''A'',
                                   up_MatchDate = ''2025-07-01'', up_MatchTime = ''20:00''\<rparr>),
         (demo_env, OpSubmitResult 100 \<lparr>Goals = []\<rparr>),
         (demo_env, OpUpdateResult 100 \<lparr>Goals = []\<rparr>)]) 100 =
     Some (demo_match\<lparr>m_Status := ''completed''\<rparr>) \<and>
   m_Status (demo_match\<lparr>m_Status := ''completed''\<rparr>) \<noteq> ''scheduled''"
proof -
  have l: "liveMatch demo_completed 100 =
      Some (demo_match\<lparr>m_HomeScore := 2, m_AwayScore := 1, m_Status := ''completed''\<rparr>)"
    by (simp add: liveMatch_def demo_completed_def demo_match_def)
  have r: "liveMatch
     (run demo_completed
        [(demo_env, OpUpdate 100 \<lparr>up_HomeTeamID = ''B'', up_AwayTeamID = ''A'',
                                   up_MatchDate = ''2025-07-01'', up_MatchTime = ''20:00''\<rparr>),
         (demo_env, OpSubmitResult 100 \<lparr>Goals = []\<rparr>),
         (demo_env, OpUpdateResult 100 \<lparr>Goals = []\<rparr>)]) 100 =
     Some (demo_match\<lparr>m_Status := ''completed''\<rparr>)"
    by (simp add: Update_def SubmitResult_def UpdateResult_def matchRepo_FindByID_def
        liveMatch_def processResult_def goalRepo_DeleteByMatchID_def matchRepo_Update_def
        save_def matchRepo_FindByIDWithDetails_def Let_def demo_env_def demo_completed_def
        demo_match_def)
  from completed_never_scheduled_again [OF l _ r] l r show ?thesis
    by simp
qed

section \<open>Top scorer\<close>

lemma topScorerScan_None:
  "topScorerScan kvs m cur = None \<longleftrightarrow> cur = None \<and> (\<forall>c \<in> snd ` set kvs. pgc_Count c \<le> m)"
  by (induction kvs m cur rule: topScorerScan.induct) auto

lemma topScorerScan_Some:
  "topScorerScan kvs m cur = Some ts \<Longrightarrow>
     (cur = Some ts \<and> (\<forall>c \<in> snd ` set kvs. pgc_Count c \<le> m)) \<or>
     (\<exists>c \<in> snd ` set kvs.
        ts = \<lparr>ts_PlayerName = pgc_PlayerName c, ts_TeamName = pgc_TeamName c,
              ts_GoalsInMatch = pgc_Count c\<rparr> \<and>
        m < pgc_Count c \<and> (\<forall>c' \<in> snd ` set kvs. pgc_Count c' \<le> pgc_Count c))"
proof (induction kvs m cur rule: topScorerScan.induct)
  case (1 maxGoals topScorer)
  then show ?case by simp
next
  case (2 k pg rest maxGoals topScorer)
  let ?mk = "\<lambda>c. \<lparr>ts_PlayerName = pgc_PlayerName c, ts_TeamName = pgc_TeamName c,
              ts_GoalsInMatch = pgc_Count c\<rparr>"
  show ?case
  proof (cases "pgc_Count pg > maxGoals")
    case True
    with "2.prems" have scan: "topScorerScan rest (pgc_Count pg) (Some (?mk pg)) = Some ts"
      by simp
    from "2.IH"(1) [OF True scan] show ?thesis
    proof
      assume "Some (?mk pg) = Some ts \<and> (\<forall>c \<in> snd ` set rest. pgc_Count c \<le> pgc_Count pg)"
      then have "ts = ?mk pg" "\<forall>c' \<in> snd ` set ((k, pg) # rest). pgc_Count c' \<le> pgc_Count pg"
        by auto
      with True show ?thesis
        by (intro disjI2 bexI [of _ pg]) auto
    next
      assume "\<exists>c \<in> snd ` set rest. ts = ?mk c \<and> pgc_Count pg < pgc_Count c \<and>
                (\<forall>c' \<in> snd ` set rest. pgc_Count c' \<le> pgc_Count c)"
      then obtain c where c: "c \<in> snd ` set rest" "ts = ?mk c" "pgc_Count pg < pgc_Count c"
        "\<forall>c' \<in> snd ` set rest. pgc_Count c' \<le> pgc_Count c"
        by blast
      then have "\<forall>c' \<in> snd ` set ((k, pg) # rest). pgc_Count c' \<le> pgc_Count c"
        by auto
      with c True show ?thesis
        by (intro disjI2 bexI [of _ c]) auto
    qed
  next
    case False
    with "2.prems" have scan: "topScorerScan rest maxGoals topScorer = Some ts"
      by simp
    from "2.IH"(2) [OF False scan] show ?thesis
    proof
      assume "topScorer = Some ts \<and> (\<forall>c \<in> snd ` set rest. pgc_Count c \<le> maxGoals)"
      with False show ?thesis
        by auto
    next
      assume "\<exists>c \<in> snd ` set rest. ts = ?mk c \<and> maxGoals < pgc_Count c \<and>
                (\<forall>c' \<in> snd ` set rest. pgc_Count c' \<le> pgc_Count c)"
      then obtain c where c: "c \<in> snd ` set rest" "ts = ?mk c" "maxGoals < pgc_Count c"
        "\<forall>c' \<in> snd ` set rest. pgc_Count c' \<le> pgc_Count c"
        by blast
      then have "\<forall>c' \<in> snd ` set ((k, pg) # rest). pgc_Count c' \<le> pgc_Count c"
        using False by auto
      with c show ?thesis
        by (intro disjI2 bexI [of _ c]) auto
    qed
  qed
qed

text \<open>The map built by the first loop, entry by entry.\<close>

lemma fst_bump:
  "fst ((\<lambda>(k', c). if k' = k then (k', f c) else (k', c)) x) = fst x"
  by (cases x) simp

lemma keys_accumulate:
  "fst ` set (accumulate pg gd) = insert (g_PlayerID (gd_Goal gd)) (fst ` set pg)"
  by (simp add: accumulate_def Let_def image_image fst_bump insert_absorb)

lemma in_accumulate:
  assumes "(k', c') \<in> set (accumulate pg gd)"
  shows "(\<exists>c. (k', c) \<in> set pg \<and>
            c' = (if k' = g_PlayerID (gd_Goal gd) then c\<lparr>pgc_Count := pgc_Count c + 1\<rparr> else c)) \<or>
         (k' = g_PlayerID (gd_Goal gd) \<and> g_PlayerID (gd_Goal gd) \<notin> fst ` set pg \<and>
          c' = \<lparr>pgc_PlayerName = playerNameOf gd, pgc_TeamName = teamNameOf gd, pgc_Count = 1\<rparr>)"
proof -
  let ?k = "g_PlayerID (gd_Goal gd)"
  let ?bump = "\<lambda>(k', c). if k' = ?k then (k', c\<lparr>pgc_Count := pgc_Count c + 1\<rparr>) else (k', c)"
  let ?new = "(?k, \<lparr>pgc_PlayerName = playerNameOf gd, pgc_TeamName = teamNameOf gd, pgc_Count = 0\<rparr>)"
  from assms have "(k', c') \<in> ?bump ` set pg \<or> (?k \<notin> fst ` set pg \<and> (k', c') = ?bump ?new)"
    by (simp add: accumulate_def Let_def split: if_splits) blast+
  then show ?thesis
  proof
    assume "(k', c') \<in> ?bump ` set pg"
    then obtain k c where kc: "(k, c) \<in> set pg" "(k', c') = ?bump (k, c)"
      by auto
    then have "k' = k" "c' = (if k = ?k then c\<lparr>pgc_Count := pgc_Count c + 1\<rparr> else c)"
      by (simp_all split: if_splits)
    with kc(1) show ?thesis
      by blast
  next
    assume "?k \<notin> fst ` set pg \<and> (k', c') = ?bump ?new"
    then show ?thesis
      by simp
  qed
qed

lemma accumulate_entries:
  assumes "\<forall>gd \<in> set gds. playerNameOf gd = nm (g_PlayerID (gd_Goal gd))"
  shows "fst ` set (foldl accumulate [] gds) = (\<lambda>gd. g_PlayerID (gd_Goal gd)) ` set gds \<and>
         (\<forall>k c. (k, c) \<in> set (foldl accumulate [] gds) \<longrightarrow>
            pgc_Count c = int (length (filter (\<lambda>gd. g_PlayerID (gd_Goal gd) = k) gds)) \<and>
            pgc_PlayerName c = nm k)"
  using assms
proof (induction gds rule: rev_induct)
  case Nil
  then show ?case by simp
next
  case (snoc gd gds)
  let ?key = "\<lambda>gd. g_PlayerID (gd_Goal gd)"
  let ?pg = "foldl accumulate [] gds"
  from snoc have keys: "fst ` set ?pg = ?key ` set gds"
    and ent: "\<And>k c. (k, c) \<in> set ?pg \<Longrightarrow>
            pgc_Count c = int (length (filter (\<lambda>gd. ?key gd = k) gds)) \<and> pgc_PlayerName c = nm k"
    and nm: "playerNameOf gd = nm (?key gd)"
    by auto
  have acc: "foldl accumulate [] (gds @ [gd]) = accumulate ?pg gd"
    by simp
  have k: "fst ` set (foldl accumulate [] (gds @ [gd])) = ?key ` set (gds @ [gd])"
    unfolding acc keys_accumulate keys by simp
  have e: "pgc_Count c' = int (length (filter (\<lambda>gd. ?key gd = k') (gds @ [gd]))) \<and>
           pgc_PlayerName c' = nm k'"
    if mem: "(k', c') \<in> set (foldl accumulate [] (gds @ [gd]))" for k' c'
    using in_accumulate [OF mem [unfolded acc]]
  proof
    assume "\<exists>c. (k', c) \<in> set ?pg \<and>
              c' = (if k' = ?key gd then c\<lparr>pgc_Count := pgc_Count c + 1\<rparr> else c)"
    then obtain c where c: "(k', c) \<in> set ?pg"
      "c' = (if k' = ?key gd then c\<lparr>pgc_Count := pgc_Count c + 1\<rparr> else c)"
      by blast
    from ent [OF c(1)] c(2) show ?thesis
      by (cases "k' = ?key gd") simp_all
  next
    assume new: "k' = ?key gd \<and> ?key gd \<notin> fst ` set ?pg \<and>
          c' = \<lparr>pgc_PlayerName = playerNameOf gd, pgc_TeamName = teamNameOf gd, pgc_Count = 1\<rparr>"
    with keys have "?key gd \<notin> ?key ` set gds"
      by simp
    then have "\<forall>g \<in> set gds. ?key g \<noteq> ?key gd"
      by (metis imageI)
    then have "filter (\<lambda>g. ?key g = ?key gd) gds = []"
      by (simp add: filter_empty_conv)
    with new nm show ?thesis
      by simp
  qed
  from k e show ?case
    by blast
qed

lemma report_top_scorer:
  assumes "GetMatchReportByID e db matchID = Inr r"
  shows "rp_TopScorer r =
           topScorerScan
             (rangeOrder e (foldl accumulate []
                (map (loadGoal db) (sort_key g_Minute (liveGoals db matchID))))) 0 None"
  using assms
  by (auto simp: GetMatchReportByID_def matchRepo_FindByIDWithDetails_def Let_def
      split: if_splits sum.splits dberr.splits option.splits)

lemma loaded_goal_counts:
  "length (filter (\<lambda>gd. g_PlayerID (gd_Goal gd) = k)
             (map (loadGoal db) (sort_key g_Minute gl))) =
   length (filter (\<lambda>g. g_PlayerID g = k) gl)"
proof -
  have "filter (\<lambda>gd. g_PlayerID (gd_Goal gd) = k) (map (loadGoal db) (sort_key g_Minute gl)) =
        map (loadGoal db) (filter (\<lambda>g. g_PlayerID g = k) (sort_key g_Minute gl))"
    by (simp add: filter_map o_def loadGoal_def)
  then show ?thesis
    by (simp add: filter_sort)
qed

lemma player_goals_entries:
  fixes db matchID
  defines "gl \<equiv> liveGoals db matchID"
  defines "pg \<equiv> foldl accumulate [] (map (loadGoal db) (sort_key g_Minute gl))"
  shows "fst ` set pg = g_PlayerID ` set gl"
    and "(k, c) \<in> set pg \<Longrightarrow>
           pgc_Count c = goalCount gl k \<and> pgc_PlayerName c = nameOfPlayer db k \<and>
           k \<in> g_PlayerID ` set gl \<and> 1 \<le> pgc_Count c"
proof -
  let ?gds = "map (loadGoal db) (sort_key g_Minute gl)"
  have names: "\<forall>gd \<in> set ?gds. playerNameOf gd = nameOfPlayer db (g_PlayerID (gd_Goal gd))"
    by (auto simp: loadGoal_def playerNameOf_def nameOfPlayer_def)
  note acc = accumulate_entries [OF names]
  have img: "(\<lambda>gd. g_PlayerID (gd_Goal gd)) ` set ?gds = g_PlayerID ` set gl"
    by (simp add: image_image loadGoal_def)
  from acc img show keys: "fst ` set pg = g_PlayerID ` set gl"
    by (simp add: pg_def)
  assume mem: "(k, c) \<in> set pg"
  with acc have "pgc_Count c = int (length (filter (\<lambda>gd. g_PlayerID (gd_Goal gd) = k) ?gds)) \<and>
      pgc_PlayerName c = nameOfPlayer db k"
    unfolding pg_def by blast
  then have c: "pgc_Count c = goalCount gl k" "pgc_PlayerName c = nameOfPlayer db k"
    unfolding loaded_goal_counts goalCount_def by simp_all
  from mem keys have k: "k \<in> g_PlayerID ` set gl"
    by (metis fst_conv imageI)
  then obtain g where "g \<in> set gl" "g_PlayerID g = k"
    by auto
  then have "filter (\<lambda>g. g_PlayerID g = k) gl \<noteq> []"
    by (auto simp: filter_empty_conv)
  then have "1 \<le> goalCount gl k"
    by (cases "filter (\<lambda>g. g_PlayerID g = k) gl") (simp_all add: goalCount_def)
  with c k show "pgc_Count c = goalCount gl k \<and> pgc_PlayerName c = nameOfPlayer db k \<and>
           k \<in> g_PlayerID ` set gl \<and> 1 \<le> pgc_Count c"
    by simp
qed

text \<open>
  C8: in every report of a completed match, whatever order the scan of the map
  takes, the top scorer is absent exactly when the match has no goals; when
  present, it carries the name of a player who scored in the match, that
  player's number of goals in the match as \<^verbatim>\<open>GoalsInMatch\<close>, and no player has more
  goals in the match.
\<close>

theorem report_top_scorer_is_maximal:
  assumes rep: "GetMatchReportByID e db matchID = Inr r"
    and range: "\<And>kvs. set (rangeOrder e kvs) = set kvs"
  shows "(rp_TopScorer r = None \<longleftrightarrow> liveGoals db matchID = []) \<and>
         (\<forall>ts. rp_TopScorer r = Some ts \<longrightarrow>
            (\<exists>p \<in> g_PlayerID ` set (liveGoals db matchID).
               ts_PlayerName ts = nameOfPlayer db p \<and>
               ts_GoalsInMatch ts = goalCount (liveGoals db matchID) p \<and>
               (\<forall>q. goalCount (liveGoals db matchID) q \<le> ts_GoalsInMatch ts)))"
proof -
  define gl where "gl = liveGoals db matchID"
  define pg where "pg = foldl accumulate [] (map (loadGoal db) (sort_key g_Minute gl))"
  have top: "rp_TopScorer r = topScorerScan (rangeOrder e pg) 0 None"
    using report_top_scorer [OF rep] by (simp add: pg_def gl_def)
  have keys: "fst ` set pg = g_PlayerID ` set gl"
    unfolding pg_def gl_def by (rule player_goals_entries(1))
  have ent: "pgc_Count c = goalCount gl k \<and> pgc_PlayerName c = nameOfPlayer db k \<and>
             k \<in> g_PlayerID ` set gl \<and> 1 \<le> pgc_Count c" if "(k, c) \<in> set pg" for k c
    using that unfolding pg_def gl_def by (rule player_goals_entries(2))
  have none: "rp_TopScorer r = None \<longleftrightarrow> gl = []"
  proof
    assume "rp_TopScorer r = None"
    then have le: "\<forall>c \<in> snd ` set pg. pgc_Count c \<le> 0"
      by (simp add: top topScorerScan_None range)
    have "set pg = {}"
    proof (rule ccontr)
      assume "set pg \<noteq> {}"
      then obtain k c where kc: "(k, c) \<in> set pg"
        by (cases pg) auto
      then have "c \<in> snd ` set pg"
        by (metis snd_conv imageI)
      with le ent [OF kc] show False
        by auto
    qed
    with keys show "gl = []"
      by simp
  next
    assume "gl = []"
    then have "pg = []"
      by (simp add: pg_def)
    then show "rp_TopScorer r = None"
      using range [of "[]"] by (simp add: top)
  qed
  have some: "\<exists>p \<in> g_PlayerID ` set gl.
               ts_PlayerName ts = nameOfPlayer db p \<and> ts_GoalsInMatch ts = goalCount gl p \<and>
               (\<forall>q. goalCount gl q \<le> ts_GoalsInMatch ts)"
    if ts: "rp_TopScorer r = Some ts" for ts
  proof -
    from topScorerScan_Some [OF ts [unfolded top]]
    obtain c where c: "c \<in> snd ` set pg"
      "ts = \<lparr>ts_PlayerName = pgc_PlayerName c, ts_TeamName = pgc_TeamName c,
             ts_GoalsInMatch = pgc_Count c\<rparr>"
      and mx: "\<forall>c' \<in> snd ` set pg. pgc_Count c' \<le> pgc_Count c"
      by (auto simp: range)
    from c(1) obtain p where p: "(p, c) \<in> set pg"
      by auto
    note pc = ent [OF p]
    have "goalCount gl q \<le> pgc_Count c" for q
    proof (cases "q \<in> g_PlayerID ` set gl")
      case True
      with keys obtain c' where q: "(q, c') \<in> set pg"
        by (metis (no_types, lifting) fst_conv imageE prod.collapse)
      then have "c' \<in> snd ` set pg"
        by (metis snd_conv imageI)
      with mx ent [OF q] show ?thesis
        by auto
    next
      case False
      then have "filter (\<lambda>g. g_PlayerID g = q) gl = []"
        by (auto simp: filter_empty_conv)
      with pc show ?thesis
        by (simp add: goalCount_def)
    qed
    with pc c(2) show ?thesis
      by (intro bexI [of _ p]) simp_all
  qed
  from none some show ?thesis
    unfolding gl_def by blast
qed

theorem report_top_scorer_is_maximal_witness:
  "GetMatchReportByID demo_env demo_completed 100 =
     Inr \<lparr>rp_MatchID = 100, rp_MatchDate = ''2025-06-15'', rp_MatchTime = ''19:30'',
           rp_HomeScore = 2, rp_AwayScore = 1, rp_MatchResult = ''Home Win'',
           rp_Goals = [\<lparr>rg_PlayerName = ''a1'', rg_TeamName = ''A'', rg_Minute = 10\<rparr>,
                       \<lparr>rg_PlayerName = ''b1'', rg_TeamName = ''B'', rg_Minute = 55\<rparr>,
                       \<lparr>rg_PlayerName = ''a1'', rg_TeamName = ''A'', rg_Minute = 80\<rparr>],
           rp_TopScorer = Some \<lparr>ts_PlayerName = ''a1'', ts_TeamName = ''A'', ts_GoalsInMatch = 2\<rparr>,
           rp_HomeTeamTotalWins = 1, rp_AwayTeamTotalWins = 0\<rparr> \<and>
   liveGoals demo_completed 100 \<noteq> [] \<and>
   (\<exists>p. p \<in> g_PlayerID ` set (liveGoals demo_completed 100) \<and>
      ''a1'' = nameOfPlayer demo_completed p \<and> 2 = goalCount (liveGoals demo_completed 100) p \<and>
      goalCount (liveGoals demo_completed 100) 21 \<le> 2)"
proof -
  let ?r = "\<lparr>rp_MatchID = 100, rp_MatchDate = ''2025-06-15'', rp_MatchTime = ''19:30'',
           rp_HomeScore = 2, rp_AwayScore = 1, rp_MatchResult = ''Home Win'',
           rp_Goals = [\<lparr>rg_PlayerName = ''a1'', rg_TeamName = ''A'', rg_Minute = 10\<rparr>,
                       \<lparr>rg_PlayerName = ''b1'', rg_TeamName = ''B'', rg_Minute = 55\<rparr>,
                       \<lparr>rg_PlayerName = ''a1'', rg_TeamName = ''A'', rg_Minute = 80\<rparr>],
           rp_TopScorer = Some \<lparr>ts_PlayerName = ''a1'', ts_TeamName = ''A'', ts_GoalsInMatch = 2\<rparr>,
           rp_HomeTeamTotalWins = 1, rp_AwayTeamTotalWins = 0\<rparr>"
  have rep: "GetMatchReportByID demo_env demo_completed 100 = Inr ?r"
    by (simp add: GetMatchReportByID_def matchRepo_FindByIDWithDetails_def liveMatch_def
        liveGoals_def loadGoal_def livePlayer_def liveTeam_def matchRepo_CountWins_def
        accumulate_def reportGoal_def playerNameOf_def teamNameOf_def computeMatchResult_def
        Let_def demo_env_def demo_completed_def demo_match_def demo_goal_def demo_players_def
        demo_teams_def)
  have range: "\<And>kvs. set (rangeOrder demo_env kvs) = set kvs"
    by (simp add: demo_env_def)
  have ne: "liveGoals demo_completed 100 \<noteq> []"
    by (simp add: liveGoals_def demo_completed_def demo_goal_def)
  from report_top_scorer_is_maximal [OF rep range] ne rep show ?thesis
    by auto
qed

end
